theory Spec2Isabelle
  imports Main "HOL-Library.Word"
begin

section \<open>AirportSearch API: data model of app/models.py\<close>

text \<open>
  Every table of \<^verbatim>\<open>app/models.py\<close> is a list of rows, every row a record with one field
  per column. A column that may hold SQL NULL has an option type; a primary-key column
  and a column declared \<^verbatim>\<open>nullable=False\<close> has not. Field names carry a prefix for their
  table, since several tables have columns called \<^verbatim>\<open>id\<close>, \<^verbatim>\<open>code\<close>, \<^verbatim>\<open>name\<close> or \<^verbatim>\<open>type\<close>.
  A \<^verbatim>\<open>Float\<close> column is carried as the 64 bits of its double: no operation of the
  application computes with one, they are only copied into the response.
\<close>

type_synonym float = "64 word"

record airport_type =
  at_code :: string
  at_description :: "string option"

record api_key =
  k_id :: int
  k_key :: string
  k_is_active :: "bool option"

record country =
  c_id :: "int option"
  c_code :: string
  c_name :: "string option"
  c_continent :: "string option"
  c_wikipedia_link :: "string option"
  c_keywords :: "string option"

record region =
  rg_id :: "int option"
  rg_code :: string
  rg_local_code :: "string option"
  rg_name :: "string option"
  rg_continent :: "string option"
  rg_iso_country :: "string option"
  rg_wikipedia_link :: "string option"
  rg_keywords :: "string option"

record frequency =
  f_id :: int
  f_airport_ref :: "int option"
  f_airport_ident :: "string option"
  f_type :: "string option"
  f_description :: "string option"
  f_frequency_mhz :: "float option"

record navaid =
  n_id :: int
  n_filename :: "string option"
  n_ident :: "string option"
  n_name :: "string option"
  n_type :: "string option"
  n_frequency_khz :: "int option"
  n_latitude_deg :: "float option"
  n_longitude_deg :: "float option"
  n_elevation_ft :: "int option"
  n_iso_country :: "string option"
  n_dme_frequency_khz :: "int option"
  n_dme_channel :: "string option"
  n_dme_latitude_deg :: "float option"
  n_dme_longitude_deg :: "float option"
  n_dme_elevation_ft :: "int option"
  n_slaved_variation_deg :: "string option"
  n_magnetic_variation_deg :: "float option"
  n_usagetype :: "string option"
  n_power :: "string option"
  n_associated_airport :: "string option"

record runway =
  rw_id :: int
  rw_airport_ref :: "int option"
  rw_airport_ident :: "string option"
  rw_length_ft :: "int option"
  rw_width_ft :: "int option"
  rw_surface :: "string option"
  rw_lighted :: "int option"
  rw_closed :: "int option"
  rw_le_ident :: "string option"
  rw_le_latitude_deg :: "float option"
  rw_le_longitude_deg :: "float option"
  rw_le_elevation_ft :: "int option"
  rw_le_heading_degt :: "int option"
  rw_le_displaced_threshold_ft :: "int option"
  rw_he_ident :: "string option"
  rw_he_latitude_deg :: "float option"
  rw_he_longitude_deg :: "float option"
  rw_he_elevation_ft :: "int option"
  rw_he_heading_degt :: "int option"
  rw_he_displaced_threshold_ft :: "int option"

record airport =
  a_id :: "int option"
  a_ident :: string
  a_type :: "string option"
  a_name :: "string option"
  a_latitude_deg :: "float option"
  a_longitude_deg :: "float option"
  a_elevation_ft :: "int option"
  a_continent :: "string option"
  a_iso_country :: "string option"
  a_iso_region :: "string option"
  a_municipality :: "string option"
  a_scheduled_service :: "string option"
  a_gps_code :: "string option"
  a_iata_code :: "string option"
  a_local_code :: "string option"
  a_home_link :: "string option"
  a_wikipedia_link :: "string option"
  a_keywords :: "string option"

text \<open>
  The Airport object as the query of \<^verbatim>\<open>get_airports_by_name\<close> leaves it in memory: the
  columns, and the four relationships the query loads with \<^verbatim>\<open>joinedload\<close>. The
  relationships \<^verbatim>\<open>frequencies\<close> and \<^verbatim>\<open>runways\<close> are not loaded by the query (they keep
  the default lazy strategy), so the object does not hold them.
\<close>

record airport_obj = airport +
  airport_type :: "airport_type option"
  country :: "country option"
  region :: "region option"
  navaids :: "navaid list"

text \<open>
  \<^verbatim>\<open>schemas.AirportSchema\<close>: the columns, the three optional nested objects and the three
  lists. The nested schemas have exactly the columns of their tables, so a row is its own
  schema value.
\<close>

record airport_schema = airport_obj +
  runways :: "runway list"
  frequencies :: "frequency list"

record database =
  airport_types_table :: "airport_type list"
  api_keys_table :: "api_key list"
  countries_table :: "country list"
  regions_table :: "region list"
  frequencies_table :: "frequency list"
  navaids_table :: "navaid list"
  runways_table :: "runway list"
  airports_table :: "airport list"

text \<open>
  The statements a request sends to the database, in the order sent, are recorded in the
  session, so that what runs before what can be stated.
\<close>

datatype statement =
    SelectAPIKey string
  | SelectAirports string
  | SelectRunways string
  | SelectFrequencies string

record session =
  store :: database
  executed :: "statement list"

datatype http_exception = HTTPException nat string

text \<open>
  What the endpoint can raise: the \<^verbatim>\<open>HTTPException\<close> of its own code, or the error of the
  database driver for a statement it refuses to send.
\<close>

datatype error = Raised http_exception | StatementError

text \<open>
  The body of a response: the \<^verbatim>\<open>detail\<close> of an exception, the list of airports, the text
  of the server's answer to an exception nobody handles, or a page of the documentation
  that FastAPI generates.
\<close>

datatype content = Detail string | Airports "airport_schema list" | Text string | Documentation

datatype response = Response nat content


section \<open>The Auth Gate: verify_api_key of app/main.py\<close>

text \<open>
  \<^verbatim>\<open>db.query(APIKey).filter(APIKey.key == api_key, APIKey.is_active.is_(True)).first()\<close>:
  the first row with that key whose \<^verbatim>\<open>is_active\<close> is TRUE (a NULL \<^verbatim>\<open>is_active\<close> is not).
\<close>

definition query_api_key :: "string \<Rightarrow> session \<Rightarrow> api_key option \<times> session" where
  "query_api_key k s =
     (find (\<lambda>r. k_key r = k \<and> k_is_active r = Some True) (api_keys_table (store s)),
      s\<lparr>executed := executed s @ [SelectAPIKey k]\<rparr>)"

text \<open>
  The header \<^verbatim>\<open>x-api-key\<close> is read with \<^verbatim>\<open>auto_error=False\<close>: an absent header is
  \<^verbatim>\<open>None\<close>. Python's \<^verbatim>\<open>not api_key\<close> holds for \<^verbatim>\<open>None\<close> and for the empty string.
\<close>

definition verify_api_key :: "string option \<Rightarrow> session \<Rightarrow> (http_exception + unit) \<times> session" where
  "verify_api_key api_key s =
     (case api_key of
        None \<Rightarrow> (Inl (HTTPException 401 ''Missing API key''), s)
      | Some k \<Rightarrow>
          if k = [] then (Inl (HTTPException 401 ''Missing API key''), s)
          else
            (case query_api_key k s of
               (None, s') \<Rightarrow> (Inl (HTTPException 401 ''Invalid or inactive API key''), s')
             | (Some db_key, s') \<Rightarrow> (Inr (), s')))"

section \<open>The pattern match of the database: ILIKE\<close>

text \<open>
  The application targets PostgreSQL (\<^verbatim>\<open>app/database.py\<close>). In a LIKE pattern \<^verbatim>\<open>%\<close>
  matches any run of characters, \<^verbatim>\<open>_\<close> any one character, a backslash makes the
  character after it literal, and any other character matches itself. The whole text
  must be consumed. A pattern that ends in a lone backslash is an error in PostgreSQL;
  the pattern built by \<^verbatim>\<open>get_airports_by_name\<close> always ends in \<^verbatim>\<open>%\<close> and never in a
  lone backslash (\<open>like_pattern_well_formed\<close> below), so the branch is \<^const>\<open>False\<close> here.
\<close>

fun like_match :: "string \<Rightarrow> string \<Rightarrow> bool" where
  "like_match [] t = (t = [])"
| "like_match (p # ps) t =
     (if p = CHR ''%'' then
        (like_match ps t \<or> (case t of [] \<Rightarrow> False | c # cs \<Rightarrow> like_match (p # ps) cs))
      else if p = CHR ''_'' then
        (case t of [] \<Rightarrow> False | c # cs \<Rightarrow> like_match ps cs)
      else if p = CHR 0x5C then
        (case ps of
           [] \<Rightarrow> False
         | q # qs \<Rightarrow> (case t of [] \<Rightarrow> False | c # cs \<Rightarrow> c = q \<and> like_match qs cs))
      else
        (case t of [] \<Rightarrow> False | c # cs \<Rightarrow> c = p \<and> like_match ps cs))"

text \<open>The patterns on which PostgreSQL raises that error.\<close>

fun ends_in_escape :: "string \<Rightarrow> bool" where
  "ends_in_escape [] = False"
| "ends_in_escape [p] = (p = CHR 0x5C)"
| "ends_in_escape (p # q # ps) =
     (if p = CHR 0x5C then ends_in_escape ps else ends_in_escape (q # ps))"

text \<open>
  ILIKE folds the case of pattern and text. PostgreSQL folds the letters of the locale of
  the database; the model folds the letters A to Z, which is the same on ASCII text. The
  theorems that evaluate a match do so on ASCII text.
\<close>

definition lower_char :: "char \<Rightarrow> char" where
  "lower_char c =
     (case map_of (zip ''ABCDEFGHIJKLMNOPQRSTUVWXYZ'' ''abcdefghijklmnopqrstuvwxyz'') c of
        None \<Rightarrow> c
      | Some d \<Rightarrow> d)"

definition lower :: "string \<Rightarrow> string" where
  "lower t = map lower_char t"

text \<open>A NULL column gives NULL, which is the \<^const>\<open>None\<close> of three-valued logic.\<close>

definition ilike :: "string option \<Rightarrow> string \<Rightarrow> bool option" where
  "ilike col pat = map_option (\<lambda>t. like_match (lower pat) (lower t)) col"

fun sql_or :: "bool option \<Rightarrow> bool option \<Rightarrow> bool option" where
  "sql_or (Some True) b = Some True"
| "sql_or a (Some True) = Some True"
| "sql_or (Some False) (Some False) = Some False"
| "sql_or a b = None"

section \<open>The Query/Projection Engine: get_airports_by_name of app/main.py\<close>

definition like_pattern :: "string \<Rightarrow> string" where
  "like_pattern name = ''%'' @ name @ ''%''"

text \<open>
  The WHERE clause \<^verbatim>\<open>Airport.name.ilike(p) | Airport.ident.ilike(p)\<close>; a row is kept
  when the clause is TRUE.
\<close>

definition where_clause :: "string \<Rightarrow> airport \<Rightarrow> bool" where
  "where_clause pat a = (sql_or (ilike (a_name a) pat) (ilike (Some (a_ident a)) pat) = Some True)"

text \<open>
  \<^verbatim>\<open>joinedload\<close> adds a LEFT OUTER JOIN per relationship: every left row is kept, once
  per matching right row, or once with NULLs when none matches.
\<close>

definition left_outer_join :: "'a list \<Rightarrow> 'b list \<Rightarrow> ('a \<Rightarrow> 'b \<Rightarrow> bool) \<Rightarrow> ('a \<times> 'b option) list" where
  "left_outer_join xs ys on =
     concat (map (\<lambda>x. case filter (on x) ys of
                         [] \<Rightarrow> [(x, None)]
                       | m # ms \<Rightarrow> map (\<lambda>y. (x, Some y)) (m # ms)) xs)"

type_synonym joined_row =
  "(((airport \<times> airport_type option) \<times> country option) \<times> region option) \<times> navaid option"

definition row_airport :: "joined_row \<Rightarrow> airport" where
  "row_airport r = fst (fst (fst (fst r)))"

definition row_airport_type :: "joined_row \<Rightarrow> airport_type option" where
  "row_airport_type r = snd (fst (fst (fst r)))"

definition row_country :: "joined_row \<Rightarrow> country option" where
  "row_country r = snd (fst (fst r))"

definition row_region :: "joined_row \<Rightarrow> region option" where
  "row_region r = snd (fst r)"

definition row_navaid :: "joined_row \<Rightarrow> navaid option" where
  "row_navaid r = snd r"

text \<open>
  The joins follow the relationships of \<^verbatim>\<open>models.Airport\<close>: the three foreign keys,
  and for navaids the \<^verbatim>\<open>primaryjoin\<close> \<^verbatim>\<open>Airport.ident == Navaid.associated_airport\<close>. An
  equality with a NULL column is never TRUE.
\<close>

definition select_airports :: "database \<Rightarrow> string \<Rightarrow> joined_row list" where
  "select_airports db pat =
     left_outer_join
       (left_outer_join
          (left_outer_join
             (left_outer_join (filter (where_clause pat) (airports_table db)) (airport_types_table db)
                (\<lambda>a t. a_type a = Some (at_code t)))
             (countries_table db) (\<lambda>r c. a_iso_country (fst r) = Some (c_code c)))
          (regions_table db) (\<lambda>r g. a_iso_region (fst (fst r)) = Some (rg_code g)))
       (navaids_table db) (\<lambda>r n. n_associated_airport n = Some (a_ident (fst (fst (fst r)))))"

text \<open>
  \<^verbatim>\<open>db.execute\<close>. The pattern is a bound parameter of the statement. PostgreSQL text
  cannot hold the character NUL, and the driver refuses such a parameter: the statement
  is not sent and an exception is raised. Other failures of the store (a lost connection)
  do not depend on the request and are not modelled. SQL fixes no order for the rows of
  a query without ORDER BY; the rows are taken here in the order of the tables, and the
  order of the airports in a response is that of the model only.
\<close>

definition execute_select :: "string \<Rightarrow> session \<Rightarrow> (error + joined_row list) \<times> session" where
  "execute_select pat s =
     (if CHR 0x00 \<in> set pat then (Inl StatementError, s)
      else (Inr (select_airports (store s) pat),
            s\<lparr>executed := executed s @ [SelectAirports pat]\<rparr>))"

text \<open>
  \<^verbatim>\<open>result.unique()\<close> keeps the first of the rows that carry the same object; the ORM
  gives one object per primary key. The same filter, on \<^verbatim>\<open>Navaid.id\<close>, keeps a navaid
  once in the collection of its airport.
\<close>

fun unique_by :: "('a \<Rightarrow> 'k) \<Rightarrow> 'k list \<Rightarrow> 'a list \<Rightarrow> 'a list" where
  "unique_by key seen [] = []"
| "unique_by key seen (x # xs) =
     (if key x \<in> set seen then unique_by key seen xs
      else x # unique_by key (key x # seen) xs)"

text \<open>
  The object of a row: the columns and the three single relationships come from the
  first row of the airport, the navaids from all its rows.
\<close>

definition load_airport :: "joined_row list \<Rightarrow> joined_row \<Rightarrow> airport_obj" where
  "load_airport rows r =
     airport.extend (row_airport r)
       (airport_obj.fields (row_airport_type r) (row_country r) (row_region r)
          (unique_by n_id []
             (List.map_filter row_navaid
                (filter (\<lambda>r'. a_ident (row_airport r') = a_ident (row_airport r)) rows))))"

definition unique_scalars_all :: "joined_row list \<Rightarrow> airport_obj list" where
  "unique_scalars_all rows =
     map (load_airport rows) (unique_by (\<lambda>r. a_ident (row_airport r)) [] rows)"

definition get_airports_by_name :: "string \<Rightarrow> session \<Rightarrow> (error + airport_obj list) \<times> session" where
  "get_airports_by_name name s =
     (case execute_select (like_pattern name) s of
        (Inl e, s') \<Rightarrow> (Inl e, s')
      | (Inr result, s') \<Rightarrow>
          (let airports = unique_scalars_all result in
           if airports = [] then
             (Inl (Raised (HTTPException 404 ''No airport found with that name or ident'')), s')
           else (Inr airports, s')))"

section \<open>The response: response_model = list[AirportSchema]\<close>

text \<open>
  The response model reads every field of the schema from the object. Reading
  \<^verbatim>\<open>runways\<close> and \<^verbatim>\<open>frequencies\<close> makes the ORM load them, each with one SELECT on the
  \<^verbatim>\<open>primaryjoin\<close> of the relationship, in the session of the request.
\<close>

definition lazy_runways :: "airport_obj \<Rightarrow> session \<Rightarrow> runway list \<times> session" where
  "lazy_runways a s =
     (filter (\<lambda>r. rw_airport_ident r = Some (a_ident a)) (runways_table (store s)),
      s\<lparr>executed := executed s @ [SelectRunways (a_ident a)]\<rparr>)"

definition lazy_frequencies :: "airport_obj \<Rightarrow> session \<Rightarrow> frequency list \<times> session" where
  "lazy_frequencies a s =
     (filter (\<lambda>f. f_airport_ident f = Some (a_ident a)) (frequencies_table (store s)),
      s\<lparr>executed := executed s @ [SelectFrequencies (a_ident a)]\<rparr>)"

definition from_orm :: "airport_obj \<Rightarrow> session \<Rightarrow> airport_schema \<times> session" where
  "from_orm a s =
     (case lazy_runways a s of
        (rws, s1) \<Rightarrow>
          (case lazy_frequencies a s1 of
             (fs, s2) \<Rightarrow> (airport_obj.extend a (airport_schema.fields rws fs), s2)))"

fun serialize_response :: "airport_obj list \<Rightarrow> session \<Rightarrow> airport_schema list \<times> session" where
  "serialize_response [] s = ([], s)"
| "serialize_response (a # as) s =
     (case from_orm a s of
        (v, s1) \<Rightarrow> (case serialize_response as s1 of (vs, s2) \<Rightarrow> (v # vs, s2)))"

section \<open>The HTTP surface: the application and its routes\<close>

text \<open>
  What follows in this section is the behaviour of FastAPI and Starlette, which is not
  code of the repository: it is modelled from their documentation, for the application
  that \<^verbatim>\<open>main.py\<close> builds with
  \<^verbatim>\<open>app = FastAPI(..., dependencies=[Depends(verify_api_key)])\<close> and
  \<^verbatim>\<open>@app.get("/airportByName/{name}", response_model=list[schemas.AirportSchema])\<close>.
\<close>

text \<open>
  An \<^verbatim>\<open>HTTPException\<close> becomes a response with its status and its detail; any other
  exception becomes the answer 500 of the server.
\<close>

definition exception_response :: "http_exception \<Rightarrow> response" where
  "exception_response e = (case e of HTTPException status_code detail \<Rightarrow> Response status_code (Detail detail))"

definition error_response :: "error \<Rightarrow> response" where
  "error_response e =
     (case e of
        Raised h \<Rightarrow> exception_response h
      | StatementError \<Rightarrow> Response 500 (Text ''Internal Server Error''))"

fun status_code :: "response \<Rightarrow> nat" where
  "status_code (Response code body) = code"

text \<open>The path operation: the endpoint, then the response model on what it returns.\<close>

definition run_endpoint :: "string \<Rightarrow> session \<Rightarrow> response \<times> session" where
  "run_endpoint name s =
     (case get_airports_by_name name s of
        (Inl e, s1) \<Rightarrow> (error_response e, s1)
      | (Inr airports, s1) \<Rightarrow>
          (case serialize_response airports s1 of
             (vs, s2) \<Rightarrow> (Response 200 (Airports vs), s2)))"

text \<open>
  The dependencies of the application are solved in order before the endpoint of a path
  operation is called; the first exception one of them raises ends the request. Each
  dependency here reads the header \<^verbatim>\<open>x-api-key\<close> and the session.
\<close>

type_synonym dependency = "string option \<Rightarrow> session \<Rightarrow> (http_exception + unit) \<times> session"

fun solve_dependencies :: "dependency list \<Rightarrow> string option \<Rightarrow> session \<Rightarrow> (http_exception + unit) \<times> session" where
  "solve_dependencies [] header s = (Inr (), s)"
| "solve_dependencies (d # ds) header s =
     (case d header s of
        (Inl e, s1) \<Rightarrow> (Inl e, s1)
      | (Inr u, s1) \<Rightarrow> solve_dependencies ds header s1)"

text \<open>\<^verbatim>\<open>dependencies=[Depends(verify_api_key)]\<close> of \<^verbatim>\<open>main.py\<close>.\<close>

definition app_dependencies :: "dependency list" where
  "app_dependencies = [verify_api_key]"

definition handle_request :: "string option \<Rightarrow> string \<Rightarrow> session \<Rightarrow> response \<times> session" where
  "handle_request api_key name s =
     (case solve_dependencies app_dependencies api_key s of
        (Inl e, s1) \<Rightarrow> (exception_response e, s1)
      | (Inr u, s1) \<Rightarrow> run_endpoint name s1)"

text \<open>
  A request, as far as the application reads it: the method, the decoded path and the
  header \<^verbatim>\<open>x-api-key\<close>.
\<close>

record request =
  http_method :: string
  path :: string
  x_api_key :: "string option"

text \<open>
  The path \<^verbatim>\<open>/airportByName/{name}\<close> matches when the rest of the path is not empty and
  has no \<^verbatim>\<open>/\<close>; the rest is the parameter \<^verbatim>\<open>name\<close>.
\<close>

definition path_param :: "string \<Rightarrow> string option" where
  "path_param p =
     (let prefix = ''/airportByName/''; name = drop (length prefix) p in
      if take (length prefix) p = prefix \<and> name \<noteq> [] \<and> CHR ''/'' \<notin> set name
      then Some name else None)"

text \<open>
  \<^verbatim>\<open>FastAPI(...)\<close> is called without \<^verbatim>\<open>docs_url\<close>, \<^verbatim>\<open>redoc_url\<close> or \<^verbatim>\<open>openapi_url\<close>, so
  the application also serves the documentation at the default paths. These routes are
  not path operations and the dependencies of the application do not apply to them.
\<close>

definition documentation_paths :: "string list" where
  "documentation_paths = [''/openapi.json'', ''/docs'', ''/docs/oauth2-redirect'', ''/redoc'']"

text \<open>
  The application on a request. A request that is not a GET request to one of these
  paths is answered without any code of \<^verbatim>\<open>main.py\<close> being run; the model does not say
  with what: that is \<^const>\<open>None\<close> here.
\<close>

definition app :: "request \<Rightarrow> session \<Rightarrow> response option \<times> session" where
  "app req s =
     (if http_method req \<noteq> ''GET'' then (None, s)
      else if path req \<in> set documentation_paths then (Some (Response 200 Documentation), s)
      else
        (case path_param (path req) of
           None \<Rightarrow> (None, s)
         | Some name \<Rightarrow>
             (case handle_request (x_api_key req) name s of (r, s1) \<Rightarrow> (Some r, s1))))"


section \<open>The matching policy in the words of the specification\<close>

text \<open>
  The specification describes the match as a case-insensitive substring test on the name
  or the ident. \<open>contains s t\<close> is Python's \<^verbatim>\<open>s in t\<close>; \<open>spec_matches\<close> is the policy as
  the specification words it, to be compared with \<^const>\<open>where_clause\<close>, which is what the
  code runs.
\<close>

fun starts_with :: "string \<Rightarrow> string \<Rightarrow> bool" where
  "starts_with t [] = True"
| "starts_with [] (c # cs) = False"
| "starts_with (d # ds) (c # cs) = (d = c \<and> starts_with ds cs)"

fun contains :: "string \<Rightarrow> string \<Rightarrow> bool" where
  "contains s [] = (s = [])"
| "contains s (c # cs) = (starts_with (c # cs) s \<or> contains s cs)"

definition icontains :: "string \<Rightarrow> string \<Rightarrow> bool" where
  "icontains s t = contains (lower s) (lower t)"

definition spec_matches :: "string \<Rightarrow> airport \<Rightarrow> bool" where
  "spec_matches query a =
     ((case a_name a of None \<Rightarrow> False | Some n \<Rightarrow> icontains query n) \<or> icontains query (a_ident a))"

text \<open>A query without the characters that a LIKE pattern reads specially.\<close>

definition plain :: "string \<Rightarrow> bool" where
  "plain s = (CHR ''%'' \<notin> set s \<and> CHR ''_'' \<notin> set s \<and> CHR 0x5C \<notin> set s)"

section \<open>An example store\<close>

text \<open>
  The store of the concrete scenarios of the specification (airport KJFK with one runway,
  one frequency and no navaid, country US, region US-NY), extended by a second airport
  with two navaids, by navaids with a NULL, a blank and a dangling
  \<^verbatim>\<open>associated_airport\<close>, and by an active and a deactivated API key.
\<close>

definition blank_airport :: airport where
  "blank_airport =
     \<lparr>a_id = None, a_ident = [], a_type = None, a_name = None, a_latitude_deg = None,
      a_longitude_deg = None, a_elevation_ft = None, a_continent = None,
      a_iso_country = None, a_iso_region = None, a_municipality = None,
      a_scheduled_service = None, a_gps_code = None, a_iata_code = None,
      a_local_code = None, a_home_link = None, a_wikipedia_link = None, a_keywords = None\<rparr>"

definition kjfk :: airport where
  "kjfk = blank_airport\<lparr>a_ident := ''KJFK'', a_type := Some ''large_airport'',
     a_name := Some ''John F Kennedy Intl'', a_iso_country := Some ''US'',
     a_iso_region := Some ''US-NY''\<rparr>"

definition lirf :: airport where
  "lirf = blank_airport\<lparr>a_ident := ''LIRF'', a_type := Some ''large_airport'',
     a_name := Some ''Rome Fiumicino'', a_iso_country := Some ''IT'',
     a_iso_region := Some ''IT-62''\<rparr>"

definition blank_navaid :: navaid where
  "blank_navaid =
     \<lparr>n_id = 0, n_filename = None, n_ident = None, n_name = None, n_type = None,
      n_frequency_khz = None, n_latitude_deg = None, n_longitude_deg = None,
      n_elevation_ft = None, n_iso_country = None, n_dme_frequency_khz = None,
      n_dme_channel = None, n_dme_latitude_deg = None, n_dme_longitude_deg = None,
      n_dme_elevation_ft = None, n_slaved_variation_deg = None,
      n_magnetic_variation_deg = None, n_usagetype = None, n_power = None,
      n_associated_airport = None\<rparr>"

definition navaid_ost :: navaid where
  "navaid_ost = blank_navaid\<lparr>n_id := 1, n_ident := Some ''OST'', n_associated_airport := Some ''LIRF''\<rparr>"

definition navaid_fco :: navaid where
  "navaid_fco = blank_navaid\<lparr>n_id := 2, n_ident := Some ''FCO'', n_associated_airport := Some ''LIRF''\<rparr>"

definition navaid_null :: navaid where
  "navaid_null = blank_navaid\<lparr>n_id := 3, n_ident := Some ''AAA''\<rparr>"

definition navaid_blank :: navaid where
  "navaid_blank = blank_navaid\<lparr>n_id := 4, n_ident := Some ''BBB'', n_associated_airport := Some []\<rparr>"

definition navaid_dangling :: navaid where
  "navaid_dangling = blank_navaid\<lparr>n_id := 5, n_ident := Some ''CCC'', n_associated_airport := Some ''ZZZZ''\<rparr>"

definition runway_kjfk :: runway where
  "runway_kjfk =
     \<lparr>rw_id = 1, rw_airport_ref = None, rw_airport_ident = Some ''KJFK'', rw_length_ft = None,
      rw_width_ft = None, rw_surface = None, rw_lighted = None, rw_closed = None,
      rw_le_ident = Some ''04L'', rw_le_latitude_deg = None, rw_le_longitude_deg = None,
      rw_le_elevation_ft = None, rw_le_heading_degt = None,
      rw_le_displaced_threshold_ft = None, rw_he_ident = Some ''22R'',
      rw_he_latitude_deg = None, rw_he_longitude_deg = None, rw_he_elevation_ft = None,
      rw_he_heading_degt = None, rw_he_displaced_threshold_ft = None\<rparr>"

definition frequency_kjfk :: frequency where
  "frequency_kjfk =
     \<lparr>f_id = 1, f_airport_ref = None, f_airport_ident = Some ''KJFK'', f_type = Some ''TWR'',
      f_description = None, f_frequency_mhz = None\<rparr>"

definition country_us :: country where
  "country_us =
     \<lparr>c_id = None, c_code = ''US'', c_name = Some ''United States'', c_continent = None,
      c_wikipedia_link = None, c_keywords = None\<rparr>"

definition region_us_ny :: region where
  "region_us_ny =
     \<lparr>rg_id = None, rg_code = ''US-NY'', rg_local_code = None, rg_name = Some ''New York'',
      rg_continent = None, rg_iso_country = Some ''US'', rg_wikipedia_link = None,
      rg_keywords = None\<rparr>"

definition type_large :: airport_type where
  "type_large = \<lparr>at_code = ''large_airport'', at_description = None\<rparr>"

definition example_db :: database where
  "example_db =
     \<lparr>airport_types_table = [type_large],
      api_keys_table =
        [\<lparr>k_id = 1, k_key = ''active-key'', k_is_active = Some True\<rparr>,
         \<lparr>k_id = 2, k_key = ''revoked-key'', k_is_active = Some False\<rparr>],
      countries_table = [country_us],
      regions_table = [region_us_ny],
      frequencies_table = [frequency_kjfk],
      navaids_table = [navaid_ost, navaid_null, navaid_fco, navaid_blank, navaid_dangling],
      runways_table = [runway_kjfk],
      airports_table = [kjfk, lirf]\<rparr>"

definition example_session :: session where
  "example_session = \<lparr>store = example_db, executed = []\<rparr>"


text \<open>
  Two more stores, each the example store with another table of airports: one whose only
  airport has the empty ident, which \<^verbatim>\<open>models.Airport\<close> admits; one whose only airport
  has a backslash in its name, with the query that is this name.
\<close>

definition blank_ident_airport :: airport where
  "blank_ident_airport = blank_airport\<lparr>a_name := Some ''Blank Field''\<rparr>"

definition blank_ident_session :: session where
  "blank_ident_session =
     \<lparr>store = example_db\<lparr>airports_table := [blank_ident_airport]\<rparr>, executed = []\<rparr>"

definition blank_ident_view :: airport_schema where
  "blank_ident_view =
     airport_obj.extend
       (airport.extend blank_ident_airport (airport_obj.fields None None None [navaid_blank]))
       (airport_schema.fields [] [])"

definition backslash_query :: string where
  "backslash_query = [CHR ''A'', CHR 0x5C, CHR ''B'']"

definition backslash_airport :: airport where
  "backslash_airport = blank_airport\<lparr>a_ident := ''XX01'', a_name := Some backslash_query\<rparr>"

definition backslash_session :: session where
  "backslash_session =
     \<lparr>store = example_db\<lparr>airports_table := [backslash_airport]\<rparr>, executed = []\<rparr>"

text \<open>The objects the example store must give for KJFK and for LIRF.\<close>

definition kjfk_view :: airport_schema where
  "kjfk_view =
     airport_obj.extend
       (airport.extend kjfk
          (airport_obj.fields (Some type_large) (Some country_us) (Some region_us_ny) []))
       (airport_schema.fields [runway_kjfk] [frequency_kjfk])"

definition lirf_view :: airport_schema where
  "lirf_view =
     airport_obj.extend
       (airport.extend lirf (airport_obj.fields (Some type_large) None None [navaid_ost, navaid_fco]))
       (airport_schema.fields [] [])"

section \<open>Deduplication, joins and the loaded objects\<close>


lemma set_unique_by_subset: "set (unique_by key seen xs) \<subseteq> set xs"
  by (induction xs arbitrary: seen) auto

lemma keys_unique_by: "key ` set (unique_by key seen xs) = key ` set xs - set seen"
  by (induction xs arbitrary: seen) auto

lemma distinct_unique_by: "distinct (map key (unique_by key seen xs))"
proof (induction xs arbitrary: seen)
  case Nil
  show ?case by simp
next
  case (Cons x xs)
  have "key x \<notin> key ` set (unique_by key (key x # seen) xs)"
    by (simp add: keys_unique_by)
  with Cons show ?case by simp
qed

lemma set_unique_by_inj:
  "inj_on key (set xs) \<Longrightarrow> set (unique_by key seen xs) = {x \<in> set xs. key x \<notin> set seen}"
proof (induction xs arbitrary: seen)
  case Nil
  show ?case by simp
next
  case (Cons x xs)
  then have inj: "inj_on key (set xs)" and new: "\<forall>y \<in> set xs. key y = key x \<longrightarrow> y = x"
    by (auto simp: inj_on_def)
  show ?case using Cons.IH [OF inj] new by auto
qed

lemma unique_by_Nil_iff: "unique_by key seen xs = [] \<longleftrightarrow> key ` set xs \<subseteq> set seen"
  by (induction xs arbitrary: seen) auto

lemma in_left_outer_join:
  "(x, yo) \<in> set (left_outer_join xs ys on) \<longleftrightarrow>
     x \<in> set xs \<and> (case yo of None \<Rightarrow> \<forall>y \<in> set ys. \<not> on x y | Some y \<Rightarrow> y \<in> set ys \<and> on x y)"
proof -
  have one: "(x, yo) \<in> set (case filter (on x') ys of [] \<Rightarrow> [(x', None)] | m # ms \<Rightarrow> map (\<lambda>y. (x', Some y)) (m # ms))
     \<longleftrightarrow> x = x' \<and> (case yo of None \<Rightarrow> \<forall>y \<in> set ys. \<not> on x y | Some y \<Rightarrow> y \<in> set ys \<and> on x y)" for x'
  proof (cases "filter (on x') ys")
    case Nil
    then show ?thesis by (cases yo) (auto simp: filter_empty_conv)
  next
    case (Cons m ms)
    then have "set (m # ms) = {y \<in> set ys. on x' y}"
      by (metis set_filter)
    with Cons show ?thesis by (cases yo) (auto simp: image_iff)
  qed
  show ?thesis unfolding left_outer_join_def by (auto simp: one)
qed


lemma in_select_airports:
  "((((a, t), c), g), n) \<in> set (select_airports db pat) \<longleftrightarrow>
     a \<in> set (airports_table db) \<and> where_clause pat a \<and>
     (case t of None \<Rightarrow> \<forall>y \<in> set (airport_types_table db). a_type a \<noteq> Some (at_code y)
      | Some y \<Rightarrow> y \<in> set (airport_types_table db) \<and> a_type a = Some (at_code y)) \<and>
     (case c of None \<Rightarrow> \<forall>y \<in> set (countries_table db). a_iso_country a \<noteq> Some (c_code y)
      | Some y \<Rightarrow> y \<in> set (countries_table db) \<and> a_iso_country a = Some (c_code y)) \<and>
     (case g of None \<Rightarrow> \<forall>y \<in> set (regions_table db). a_iso_region a \<noteq> Some (rg_code y)
      | Some y \<Rightarrow> y \<in> set (regions_table db) \<and> a_iso_region a = Some (rg_code y)) \<and>
     (case n of None \<Rightarrow> \<forall>y \<in> set (navaids_table db). n_associated_airport y \<noteq> Some (a_ident a)
      | Some y \<Rightarrow> y \<in> set (navaids_table db) \<and> n_associated_airport y = Some (a_ident a))"
  unfolding select_airports_def by (auto simp: in_left_outer_join split: option.splits)

lemma join_partner_exists:
  "\<exists>yo. (case yo of None \<Rightarrow> \<forall>y \<in> set ys. \<not> P y | Some y \<Rightarrow> y \<in> set ys \<and> P y)"
proof (cases "\<exists>y \<in> set ys. P y")
  case True
  then obtain y where "y \<in> set ys" "P y" by blast
  then have "case Some y of None \<Rightarrow> \<forall>y \<in> set ys. \<not> P y | Some y \<Rightarrow> y \<in> set ys \<and> P y" by simp
  then show ?thesis by blast
next
  case False
  then have "case None of None \<Rightarrow> \<forall>y \<in> set ys. \<not> P y | Some y \<Rightarrow> y \<in> set ys \<and> P y" by simp
  then show ?thesis by blast
qed

lemma airport_has_row:
  assumes "a \<in> set (airports_table db)" "where_clause pat a"
  shows "\<exists>r \<in> set (select_airports db pat). row_airport r = a"
proof -
  obtain t where t: "case t of None \<Rightarrow> \<forall>y \<in> set (airport_types_table db). \<not> a_type a = Some (at_code y)
      | Some y \<Rightarrow> y \<in> set (airport_types_table db) \<and> a_type a = Some (at_code y)"
    using join_partner_exists [of "airport_types_table db" "\<lambda>y. a_type a = Some (at_code y)"] by blast
  obtain c where c: "case c of None \<Rightarrow> \<forall>y \<in> set (countries_table db). \<not> a_iso_country a = Some (c_code y)
      | Some y \<Rightarrow> y \<in> set (countries_table db) \<and> a_iso_country a = Some (c_code y)"
    using join_partner_exists [of "countries_table db" "\<lambda>y. a_iso_country a = Some (c_code y)"] by blast
  obtain g where g: "case g of None \<Rightarrow> \<forall>y \<in> set (regions_table db). \<not> a_iso_region a = Some (rg_code y)
      | Some y \<Rightarrow> y \<in> set (regions_table db) \<and> a_iso_region a = Some (rg_code y)"
    using join_partner_exists [of "regions_table db" "\<lambda>y. a_iso_region a = Some (rg_code y)"] by blast
  obtain n where n: "case n of None \<Rightarrow> \<forall>y \<in> set (navaids_table db). \<not> n_associated_airport y = Some (a_ident a)
      | Some y \<Rightarrow> y \<in> set (navaids_table db) \<and> n_associated_airport y = Some (a_ident a)"
    using join_partner_exists [of "navaids_table db" "\<lambda>y. n_associated_airport y = Some (a_ident a)"] by blast
  have "((((a, t), c), g), n) \<in> set (select_airports db pat)"
    using assms t c g n by (simp add: in_select_airports)
  moreover have "row_airport ((((a, t), c), g), n) = a" by (simp add: row_airport_def)
  ultimately show ?thesis by blast
qed

lemma row_airport_selected:
  assumes "r \<in> set (select_airports db pat)"
  shows "row_airport r \<in> set (airports_table db) \<and> where_clause pat (row_airport r)"
proof -
  obtain a t c g n where r: "r = ((((a, t), c), g), n)" by (metis surj_pair)
  with assms show ?thesis by (simp add: in_select_airports row_airport_def)
qed


lemma load_airport_columns:
  "airport.truncate (load_airport rows r) = row_airport r"
  "a_ident (load_airport rows r) = a_ident (row_airport r)"
  "a_type (load_airport rows r) = a_type (row_airport r)"
  "a_iso_country (load_airport rows r) = a_iso_country (row_airport r)"
  "a_iso_region (load_airport rows r) = a_iso_region (row_airport r)"
  by (simp_all add: load_airport_def airport.defs)

lemma load_airport_relationships:
  "airport_type (load_airport rows r) = row_airport_type r"
  "country (load_airport rows r) = row_country r"
  "region (load_airport rows r) = row_region r"
  "navaids (load_airport rows r) =
     unique_by n_id []
       (List.map_filter row_navaid
          (filter (\<lambda>r'. a_ident (row_airport r') = a_ident (row_airport r)) rows))"
  by (simp_all add: load_airport_def airport.defs airport_obj.defs)

lemma obj_from_row:
  "obj \<in> set (unique_scalars_all rows) \<Longrightarrow> \<exists>r \<in> set rows. obj = load_airport rows r"
  unfolding unique_scalars_all_def using set_unique_by_subset [of "\<lambda>r. a_ident (row_airport r)" "[]" rows]
  by auto

lemma idents_unique_scalars_all:
  "map a_ident (unique_scalars_all rows) =
     map (\<lambda>r. a_ident (row_airport r)) (unique_by (\<lambda>r. a_ident (row_airport r)) [] rows)"
  by (simp add: unique_scalars_all_def load_airport_columns)

lemma distinct_idents: "distinct (map a_ident (unique_scalars_all rows))"
  by (simp only: idents_unique_scalars_all distinct_unique_by)

lemma set_idents: "a_ident ` set (unique_scalars_all rows) = (\<lambda>r. a_ident (row_airport r)) ` set rows"
proof -
  have "a_ident ` set (unique_scalars_all rows) = set (map a_ident (unique_scalars_all rows))" by simp
  also have "\<dots> = (\<lambda>r. a_ident (row_airport r)) ` set (unique_by (\<lambda>r. a_ident (row_airport r)) [] rows)"
    by (simp only: idents_unique_scalars_all set_map)
  also have "\<dots> = (\<lambda>r. a_ident (row_airport r)) ` set rows"
    by (simp add: keys_unique_by)
  finally show ?thesis .
qed

lemma unique_scalars_all_Nil_iff: "unique_scalars_all rows = [] \<longleftrightarrow> rows = []"
  by (simp add: unique_scalars_all_def unique_by_Nil_iff)

lemma select_airports_Nil_iff:
  "select_airports db pat = [] \<longleftrightarrow> (\<forall>a \<in> set (airports_table db). \<not> where_clause pat a)"
proof
  assume "select_airports db pat = []"
  then show "\<forall>a \<in> set (airports_table db). \<not> where_clause pat a"
    using airport_has_row [of _ db pat] by fastforce
next
  assume none: "\<forall>a \<in> set (airports_table db). \<not> where_clause pat a"
  show "select_airports db pat = []"
  proof (rule ccontr)
    assume "select_airports db pat \<noteq> []"
    then obtain r where "r \<in> set (select_airports db pat)" by (meson last_in_set)
    with none show False using row_airport_selected by blast
  qed
qed

lemma fst_from_orm:
  "fst (from_orm a s) =
     airport_obj.extend a
       (airport_schema.fields
          (filter (\<lambda>r. rw_airport_ident r = Some (a_ident a)) (runways_table (store s)))
          (filter (\<lambda>f. f_airport_ident f = Some (a_ident a)) (frequencies_table (store s))))"
  by (simp add: from_orm_def lazy_runways_def lazy_frequencies_def)

lemma snd_from_orm:
  "snd (from_orm a s) =
     s\<lparr>executed := executed s @ [SelectRunways (a_ident a), SelectFrequencies (a_ident a)]\<rparr>"
  by (simp add: from_orm_def lazy_runways_def lazy_frequencies_def)

lemma fst_serialize_response:
  "store s' = store s \<Longrightarrow> fst (serialize_response objs s') = map (\<lambda>a. fst (from_orm a s)) objs"
proof (induction objs arbitrary: s')
  case Nil
  show ?case by simp
next
  case (Cons a objs)
  have "store (snd (from_orm a s')) = store s" using Cons.prems by (simp add: snd_from_orm)
  from Cons.IH [OF this] Cons.prems show ?case
    by (simp add: fst_from_orm case_prod_beta)
qed

lemma snd_serialize_response:
  "snd (serialize_response objs s) =
     s\<lparr>executed := executed s @
          concat (map (\<lambda>a. [SelectRunways (a_ident a), SelectFrequencies (a_ident a)]) objs)\<rparr>"
proof (induction objs arbitrary: s)
  case Nil
  show ?case by simp
next
  case (Cons a objs)
  show ?case using Cons.IH [of "snd (from_orm a s)"]
    by (simp add: snd_from_orm case_prod_beta)
qed

lemma nul_in_like_pattern: "CHR 0x00 \<in> set (like_pattern name) \<longleftrightarrow> CHR 0x00 \<in> set name"
  by (simp add: like_pattern_def)

lemma fst_run_endpoint:
  "fst (run_endpoint name s) =
     (if CHR 0x00 \<in> set name then Response 500 (Text ''Internal Server Error'')
      else if unique_scalars_all (select_airports (store s) (like_pattern name)) = []
      then Response 404 (Detail ''No airport found with that name or ident'')
      else Response 200 (Airports (map (\<lambda>a. fst (from_orm a s))
             (unique_scalars_all (select_airports (store s) (like_pattern name))))))"
proof -
  let ?s1 = "s\<lparr>executed := executed s @ [SelectAirports (like_pattern name)]\<rparr>"
  have "store ?s1 = store s" by simp
  from fst_serialize_response [OF this] show ?thesis
    by (simp add: run_endpoint_def get_airports_by_name_def execute_select_def
        nul_in_like_pattern error_response_def exception_response_def Let_def case_prod_beta)
qed

lemma executed_run_endpoint_all:
  "executed (snd (run_endpoint name s)) =
     executed s @
       (if CHR 0x00 \<in> set name then []
        else SelectAirports (like_pattern name) #
          concat (map (\<lambda>a. [SelectRunways (a_ident a), SelectFrequencies (a_ident a)])
            (unique_scalars_all (select_airports (store s) (like_pattern name)))))"
  by (simp add: run_endpoint_def get_airports_by_name_def execute_select_def Let_def
      nul_in_like_pattern snd_serialize_response case_prod_beta)

section \<open>The Auth Gate decides first\<close>


lemma verify_api_key_missing:
  "api_key = None \<or> api_key = Some [] \<Longrightarrow>
     fst (verify_api_key api_key s) = Inl (HTTPException 401 ''Missing API key'')"
  by (auto simp: verify_api_key_def)

lemma verify_api_key_present:
  assumes "k \<noteq> []"
  shows "fst (verify_api_key (Some k) s) =
     (if (\<exists>r. r \<in> set (api_keys_table (store s)) \<and> k_key r = k \<and> k_is_active r = Some True)
      then Inr ()
      else Inl (HTTPException 401 ''Invalid or inactive API key''))"
proof (cases "find (\<lambda>r. k_key r = k \<and> k_is_active r = Some True) (api_keys_table (store s))")
  case None
  then have "\<not> (\<exists>r. r \<in> set (api_keys_table (store s)) \<and> k_key r = k \<and> k_is_active r = Some True)"
    by (simp add: find_None_iff)
  with None assms show ?thesis by (simp add: verify_api_key_def query_api_key_def)
next
  case (Some r)
  then have "r \<in> set (api_keys_table (store s)) \<and> k_key r = k \<and> k_is_active r = Some True"
    by (auto simp: find_Some_iff)
  with Some assms show ?thesis by (auto simp: verify_api_key_def query_api_key_def)
qed

lemma verify_api_key_rejection:
  assumes "fst (verify_api_key api_key s) = Inl e"
  shows "e = HTTPException 401 ''Missing API key'' \<or>
         e = HTTPException 401 ''Invalid or inactive API key''"
proof (cases "api_key = None \<or> api_key = Some []")
  case True
  from verify_api_key_missing [OF this] assms show ?thesis by simp
next
  case False
  then obtain k where "api_key = Some k" "k \<noteq> []" by (cases api_key) auto
  with assms show ?thesis by (simp add: verify_api_key_present split: if_splits)
qed

lemma verify_api_key_accepted:
  assumes "fst (verify_api_key api_key s) = Inr u"
  shows "\<exists>k. api_key = Some k \<and> k \<noteq> []"
proof (cases "api_key = None \<or> api_key = Some []")
  case True
  from verify_api_key_missing [OF this] assms show ?thesis by simp
next
  case False
  then show ?thesis by (cases api_key) auto
qed

lemma snd_verify_api_key:
  "snd (verify_api_key api_key s) =
     s\<lparr>executed := executed s @
          (case api_key of None \<Rightarrow> [] | Some k \<Rightarrow> if k = [] then [] else [SelectAPIKey k])\<rparr>"
  by (cases api_key) (simp_all add: verify_api_key_def query_api_key_def split: option.splits)

text \<open>
  Claim C2. The gate decides a request in three steps, in this order: an absent or empty
  key is rejected with status 401 and the reason "Missing API key"; otherwise the request
  is authorized exactly when the table of API keys has a row with that key whose
  \<^verbatim>\<open>is_active\<close> is TRUE; otherwise it is rejected with status 401 and the reason
  "Invalid or inactive API key".
\<close>

theorem verify_api_key_outcome:
  "fst (verify_api_key api_key s) =
     (if api_key = None \<or> api_key = Some [] then Inl (HTTPException 401 ''Missing API key'')
      else if (\<exists>r. r \<in> set (api_keys_table (store s)) \<and> Some (k_key r) = api_key \<and>
                 k_is_active r = Some True)
      then Inr ()
      else Inl (HTTPException 401 ''Invalid or inactive API key''))"
proof (cases "api_key = None \<or> api_key = Some []")
  case True
  then show ?thesis by (simp only: verify_api_key_missing if_True)
next
  case False
  then obtain k where k: "api_key = Some k" "k \<noteq> []" by (cases api_key) auto
  have "fst (verify_api_key (Some k) s) =
     (if (\<exists>r. r \<in> set (api_keys_table (store s)) \<and> k_key r = k \<and> k_is_active r = Some True)
      then Inr () else Inl (HTTPException 401 ''Invalid or inactive API key''))"
    using k(2) by (rule verify_api_key_present)
  with k show ?thesis by simp
qed

lemma handle_request_rejected:
  "fst (verify_api_key api_key s) = Inl e \<Longrightarrow>
     handle_request api_key name s = (exception_response e, snd (verify_api_key api_key s))"
  by (cases "verify_api_key api_key s") (simp add: handle_request_def app_dependencies_def)

lemma handle_request_authorized:
  "fst (verify_api_key api_key s) = Inr u \<Longrightarrow>
     handle_request api_key name s = run_endpoint name (snd (verify_api_key api_key s))"
  by (cases "verify_api_key api_key s") (simp add: handle_request_def app_dependencies_def)

lemma handle_request_not_active:
  assumes "\<not> (\<exists>r. r \<in> set (api_keys_table (store s)) \<and> Some (k_key r) = api_key \<and>
      k_is_active r = Some True)"
  shows "fst (handle_request api_key name s) =
     Response 401 (Detail (if api_key = None \<or> api_key = Some [] then ''Missing API key''
                           else ''Invalid or inactive API key''))"
proof (cases "api_key = None \<or> api_key = Some []")
  case True
  from handle_request_rejected [OF verify_api_key_missing [OF this]] True show ?thesis
    by (simp add: exception_response_def)
next
  case False
  then obtain k where k: "api_key = Some k" "k \<noteq> []" by (cases api_key) auto
  with assms have "fst (verify_api_key api_key s) =
      Inl (HTTPException 401 ''Invalid or inactive API key'')"
    by (simp add: verify_api_key_present)
  from handle_request_rejected [OF this] False show ?thesis
    by (simp add: exception_response_def)
qed

text \<open>
  Claim C8. Take two requests against the same store, the keys of the table being unique
  as \<^verbatim>\<open>models.APIKey\<close> declares them: one presents a key of a row that is not active, the
  other a key of no row. Both get the same response, status 401 with the reason
  "Invalid or inactive API key", whatever the airport names they ask for. A request
  presents a key when its header is there and not empty. More generally, for any header
  value, empty and absent included, the response to a request whose key is not active is
  the same in every store: it does not tell whether the key has a row.
\<close>

theorem inactive_key_same_as_unknown_key:
  assumes "k1 \<noteq> []" and "k2 \<noteq> []"
    and "store s1 = store s2"
    and "distinct (map k_key (api_keys_table (store s1)))"
    and "r \<in> set (api_keys_table (store s1))" and "k_key r = k1" and "k_is_active r \<noteq> Some True"
    and "k2 \<notin> k_key ` set (api_keys_table (store s2))"
  shows "fst (handle_request (Some k1) name1 s1) = fst (handle_request (Some k2) name2 s2) \<and>
         fst (handle_request (Some k2) name2 s2) =
           Response 401 (Detail ''Invalid or inactive API key'') \<and>
         (\<forall>api_key s3 s4 name3 name4.
            (\<forall>r \<in> set (api_keys_table (store s3)).
               Some (k_key r) = api_key \<longrightarrow> k_is_active r \<noteq> Some True) \<and>
            (\<forall>r \<in> set (api_keys_table (store s4)).
               Some (k_key r) = api_key \<longrightarrow> k_is_active r \<noteq> Some True) \<longrightarrow>
            fst (handle_request api_key name3 s3) = fst (handle_request api_key name4 s4))"
proof (intro conjI allI impI)
  have "\<And>r'. r' \<in> set (api_keys_table (store s1)) \<Longrightarrow> k_key r' = k1 \<Longrightarrow> r' = r"
    using assms(4,5,6) by (metis distinct_map inj_onD)
  then have no1: "\<not> (\<exists>r'. r' \<in> set (api_keys_table (store s1)) \<and> Some (k_key r') = Some k1 \<and>
      k_is_active r' = Some True)"
    using assms(7) by auto
  have no2: "\<not> (\<exists>r'. r' \<in> set (api_keys_table (store s2)) \<and> Some (k_key r') = Some k2 \<and>
      k_is_active r' = Some True)"
    using assms(8) by auto
  show r2: "fst (handle_request (Some k2) name2 s2) =
      Response 401 (Detail ''Invalid or inactive API key'')"
    using handle_request_not_active [OF no2] assms(2) by simp
  have "fst (handle_request (Some k1) name1 s1) =
      Response 401 (Detail ''Invalid or inactive API key'')"
    using handle_request_not_active [OF no1] assms(1) by simp
  with r2 show "fst (handle_request (Some k1) name1 s1) = fst (handle_request (Some k2) name2 s2)"
    by simp
next
  fix api_key and s3 s4 :: session and name3 name4 :: string
  assume "(\<forall>r \<in> set (api_keys_table (store s3)).
               Some (k_key r) = api_key \<longrightarrow> k_is_active r \<noteq> Some True) \<and>
            (\<forall>r \<in> set (api_keys_table (store s4)).
               Some (k_key r) = api_key \<longrightarrow> k_is_active r \<noteq> Some True)"
  then have no3: "\<not> (\<exists>r. r \<in> set (api_keys_table (store s3)) \<and> Some (k_key r) = api_key \<and>
        k_is_active r = Some True)"
    and no4: "\<not> (\<exists>r. r \<in> set (api_keys_table (store s4)) \<and> Some (k_key r) = api_key \<and>
        k_is_active r = Some True)"
    by auto
  show "fst (handle_request api_key name3 s3) = fst (handle_request api_key name4 s4)"
    by (simp only: handle_request_not_active [OF no3] handle_request_not_active [OF no4])
qed

theorem inactive_key_same_as_unknown_key_witness:
  "fst (handle_request (Some ''revoked-key'') ''JFK'' example_session) =
     fst (handle_request (Some ''unknown-key'') ''JFK'' example_session) \<and>
   fst (handle_request (Some ''unknown-key'') ''JFK'' example_session) =
     Response 401 (Detail ''Invalid or inactive API key'')"
  using inactive_key_same_as_unknown_key [of "''revoked-key''" "''unknown-key''" example_session
      example_session "\<lparr>k_id = 2, k_key = ''revoked-key'', k_is_active = Some False\<rparr>" "''JFK''" "''JFK''"]
  by (simp add: example_session_def example_db_def)

section \<open>The response, object by object\<close>

lemma from_orm_columns:
  "airport.truncate (fst (from_orm a s)) = airport.truncate a"
  "a_ident (fst (from_orm a s)) = a_ident a"
  "a_type (fst (from_orm a s)) = a_type a"
  "a_iso_country (fst (from_orm a s)) = a_iso_country a"
  "a_iso_region (fst (from_orm a s)) = a_iso_region a"
  by (simp_all add: fst_from_orm airport_obj.defs airport.defs)

lemma from_orm_relationships:
  "airport_type (fst (from_orm a s)) = airport_type a"
  "country (fst (from_orm a s)) = country a"
  "region (fst (from_orm a s)) = region a"
  "navaids (fst (from_orm a s)) = navaids a"
  "runways (fst (from_orm a s)) =
     filter (\<lambda>r. rw_airport_ident r = Some (a_ident a)) (runways_table (store s))"
  "frequencies (fst (from_orm a s)) =
     filter (\<lambda>f. f_airport_ident f = Some (a_ident a)) (frequencies_table (store s))"
  by (simp_all add: fst_from_orm airport_obj.defs airport_schema.defs)

lemma response_200:
  assumes "fst (run_endpoint name s) = Response 200 (Airports vs)"
  shows "vs = map (\<lambda>a. fst (from_orm a s))
           (unique_scalars_all (select_airports (store s) (like_pattern name)))"
  using assms by (simp add: fst_run_endpoint split: if_splits)

lemma response_200_no_nul:
  "fst (run_endpoint name s) = Response 200 c \<Longrightarrow> CHR 0x00 \<notin> set name"
  by (simp add: fst_run_endpoint split: if_splits)

lemma view_from_row:
  assumes "fst (run_endpoint name s) = Response 200 (Airports vs)" and "v \<in> set vs"
  shows "\<exists>r \<in> set (select_airports (store s) (like_pattern name)).
           v = fst (from_orm (load_airport (select_airports (store s) (like_pattern name)) r) s)"
proof -
  from response_200 [OF assms(1)] assms(2)
  obtain obj where "obj \<in> set (unique_scalars_all (select_airports (store s) (like_pattern name)))"
    and "v = fst (from_orm obj s)" by auto
  with obj_from_row show ?thesis by blast
qed

lemma fst_run_endpoint_store:
  "store s' = store s \<Longrightarrow> fst (run_endpoint name s') = fst (run_endpoint name s)"
  by (simp add: fst_run_endpoint fst_from_orm)

lemma once_if_distinct:
  "distinct (map f xs) \<Longrightarrow> x \<in> set xs \<Longrightarrow> length (filter (\<lambda>v. f v = f x) xs) = 1"
proof (induction xs)
  case Nil
  then show ?case by simp
next
  case (Cons y ys)
  show ?case
  proof (cases "f y = f x")
    case True
    then have "f x \<notin> f ` set ys" using Cons.prems(1) by simp
    then have "\<forall>v \<in> set ys. f v \<noteq> f x" by (metis image_eqI)
    then have "filter (\<lambda>v. f v = f x) ys = []" by (simp add: filter_empty_conv)
    with True show ?thesis by simp
  next
    case False
    then have "x \<in> set ys" using Cons.prems(2) by auto
    with Cons False show ?thesis by simp
  qed
qed

lemma same_key_same_row:
  "distinct (map f xs) \<Longrightarrow> x \<in> set xs \<Longrightarrow> y \<in> set xs \<Longrightarrow> f x = f y \<Longrightarrow> x = y"
  by (meson distinct_map inj_onD)

lemma set_map_filter: "set (List.map_filter f xs) = {y. \<exists>x \<in> set xs. f x = Some y}"
  by (induction xs) (auto simp: List.map_filter_simps split: option.splits)

lemma navaids_of_row:
  assumes r: "r \<in> set (select_airports db pat)"
  shows "set (List.map_filter row_navaid
           (filter (\<lambda>r'. a_ident (row_airport r') = a_ident (row_airport r)) (select_airports db pat))) =
         {n \<in> set (navaids_table db). n_associated_airport n = Some (a_ident (row_airport r))}"
    (is "?L = ?R")
proof
  show "?L \<subseteq> ?R"
  proof
    fix n assume "n \<in> ?L"
    then obtain r' where r': "r' \<in> set (select_airports db pat)"
      "a_ident (row_airport r') = a_ident (row_airport r)" "row_navaid r' = Some n"
      by (auto simp: set_map_filter)
    obtain a t c g m where eq: "r' = ((((a, t), c), g), m)" by (metis surj_pair)
    with r' show "n \<in> ?R" by (auto simp: in_select_airports row_airport_def row_navaid_def)
  qed
  show "?R \<subseteq> ?L"
  proof
    fix n assume n: "n \<in> ?R"
    obtain a t c g m where eq: "r = ((((a, t), c), g), m)" by (metis surj_pair)
    with r n have "((((a, t), c), g), Some n) \<in> set (select_airports db pat)"
      by (auto simp: in_select_airports row_airport_def)
    moreover have "a_ident (row_airport ((((a, t), c), g), Some n)) = a_ident (row_airport r)"
      "row_navaid ((((a, t), c), g), Some n) = Some n"
      by (simp_all add: eq row_airport_def row_navaid_def)
    ultimately show "n \<in> ?L" by (force simp: set_map_filter)
  qed
qed

lemma navaids_of_view:
  assumes "fst (run_endpoint name s) = Response 200 (Airports vs)" and "v \<in> set vs"
    and pk: "distinct (map n_id (navaids_table (store s)))"
  shows "set (navaids v) =
           {n \<in> set (navaids_table (store s)). n_associated_airport n = Some (a_ident v)}"
proof -
  let ?rows = "select_airports (store s) (like_pattern name)"
  from view_from_row [OF assms(1,2)] obtain r where r: "r \<in> set ?rows"
    and v: "v = fst (from_orm (load_airport ?rows r) s)" by blast
  let ?L = "List.map_filter row_navaid
      (filter (\<lambda>r'. a_ident (row_airport r') = a_ident (row_airport r)) ?rows)"
  have id: "a_ident v = a_ident (row_airport r)"
    by (simp add: v from_orm_columns load_airport_columns)
  have L: "set ?L = {n \<in> set (navaids_table (store s)). n_associated_airport n = Some (a_ident v)}"
    by (simp only: navaids_of_row [OF r] id)
  have "inj_on n_id (set (navaids_table (store s)))" using pk by (simp add: distinct_map)
  then have "inj_on n_id (set ?L)" by (rule inj_on_subset) (auto simp: L)
  then have "set (unique_by n_id [] ?L) = set ?L" by (simp add: set_unique_by_inj)
  moreover have "navaids v = unique_by n_id [] ?L"
    by (simp add: v from_orm_relationships load_airport_relationships)
  ultimately show ?thesis using L by simp
qed

lemma handle_request_200:
  assumes "fst (handle_request api_key name s) = Response 200 c"
  shows "handle_request api_key name s = run_endpoint name (snd (verify_api_key api_key s))"
proof (cases "fst (verify_api_key api_key s)")
  case (Inl e)
  then have "e = HTTPException 401 ''Missing API key'' \<or> e = HTTPException 401 ''Invalid or inactive API key''"
    by (rule verify_api_key_rejection)
  with assms show ?thesis
    by (auto simp: handle_request_rejected [OF Inl] exception_response_def)
next
  case (Inr u)
  then show ?thesis by (rule handle_request_authorized)
qed

section \<open>The gate and the routes\<close>

lemma path_param_airport:
  assumes "name \<noteq> []" and "CHR ''/'' \<notin> set name"
  shows "path_param (''/airportByName/'' @ name) = Some name"
  using assms by (simp add: path_param_def)

lemma airport_path_not_documentation:
  "''/airportByName/'' @ name \<notin> set documentation_paths"
  by (simp add: documentation_paths_def)

lemma app_airport_route:
  assumes "http_method req = ''GET''" and "path req = ''/airportByName/'' @ name"
    and "name \<noteq> []" and "CHR ''/'' \<notin> set name"
  shows "app req s =
     (Some (fst (handle_request (x_api_key req) name s)),
      snd (handle_request (x_api_key req) name s))"
  using assms(1) airport_path_not_documentation [of name]
  by (simp add: app_def assms(2) path_param_airport [OF assms(3,4)] case_prod_beta
      del: append.simps)

text \<open>
  Claim C9, as amended. On every GET request to the route \<^verbatim>\<open>/airportByName/{name}\<close>
  the gate is decided before the endpoint. When the gate rejects, the response is the
  gate's exception, with status 401, and the only statement the request has sent to the
  database is the lookup of the key (none at all for a missing key): no airport query,
  no load of runways or frequencies. When the gate accepts, the lookup of the key is the
  first statement of the request and every statement of the endpoint comes after it.
  The routes of the documentation answer a GET request without the gate.
\<close>

theorem gate_before_airport_endpoint:
  assumes "http_method req = ''GET''" and "path req = ''/airportByName/'' @ name"
    and "name \<noteq> []" and "CHR ''/'' \<notin> set name"
  shows "(\<forall>e. fst (verify_api_key (x_api_key req) s) = Inl e \<longrightarrow>
            fst (app req s) = Some (exception_response e) \<and>
            (\<exists>detail. exception_response e = Response 401 (Detail detail)) \<and>
            executed (snd (app req s)) =
              executed s @
                (case x_api_key req of None \<Rightarrow> []
                 | Some k \<Rightarrow> if k = [] then [] else [SelectAPIKey k])) \<and>
         (fst (verify_api_key (x_api_key req) s) = Inr () \<longrightarrow>
            (\<exists>k rest. x_api_key req = Some k \<and>
               executed (snd (app req s)) = executed s @ SelectAPIKey k # rest \<and>
               (\<forall>q \<in> set rest. \<forall>k'. q \<noteq> SelectAPIKey k') \<and>
               (CHR 0x00 \<notin> set name \<longrightarrow> SelectAirports (like_pattern name) \<in> set rest))) \<and>
         (\<forall>doc. http_method doc = ''GET'' \<and> path doc \<in> set documentation_paths \<longrightarrow>
            app doc s = (Some (Response 200 Documentation), s))"
proof (intro conjI allI impI)
  fix e
  assume rej: "fst (verify_api_key (x_api_key req) s) = Inl e"
  show "fst (app req s) = Some (exception_response e)"
    by (simp add: app_airport_route [OF assms] handle_request_rejected [OF rej])
  have "e = HTTPException 401 ''Missing API key'' \<or> e = HTTPException 401 ''Invalid or inactive API key''"
    using rej by (rule verify_api_key_rejection)
  then show "\<exists>detail. exception_response e = Response 401 (Detail detail)"
    by (auto simp: exception_response_def)
  show "executed (snd (app req s)) =
      executed s @
        (case x_api_key req of None \<Rightarrow> [] | Some k \<Rightarrow> if k = [] then [] else [SelectAPIKey k])"
    by (simp add: app_airport_route [OF assms] handle_request_rejected [OF rej]
        snd_verify_api_key)
next
  assume acc: "fst (verify_api_key (x_api_key req) s) = Inr ()"
  then obtain k where k: "x_api_key req = Some k" "k \<noteq> []"
    using verify_api_key_accepted by blast
  let ?s1 = "snd (verify_api_key (x_api_key req) s)"
  let ?rest = "if CHR 0x00 \<in> set name then []
      else SelectAirports (like_pattern name) #
        concat (map (\<lambda>a. [SelectRunways (a_ident a), SelectFrequencies (a_ident a)])
          (unique_scalars_all (select_airports (store ?s1) (like_pattern name))))"
  have s1: "executed ?s1 = executed s @ [SelectAPIKey k]"
    using k by (simp add: snd_verify_api_key)
  have "snd (app req s) = snd (run_endpoint name ?s1)"
    by (simp add: app_airport_route [OF assms] handle_request_authorized [OF acc])
  then have ex: "executed (snd (app req s)) = executed s @ SelectAPIKey k # ?rest"
    by (simp only: executed_run_endpoint_all s1) simp
  have no_key: "\<forall>q \<in> set ?rest. \<forall>k'. q \<noteq> SelectAPIKey k'" by auto
  have airports: "CHR 0x00 \<notin> set name \<longrightarrow> SelectAirports (like_pattern name) \<in> set ?rest"
    by simp
  from k(1) ex no_key airports
  show "\<exists>k rest. x_api_key req = Some k \<and>
      executed (snd (app req s)) = executed s @ SelectAPIKey k # rest \<and>
      (\<forall>q \<in> set rest. \<forall>k'. q \<noteq> SelectAPIKey k') \<and>
      (CHR 0x00 \<notin> set name \<longrightarrow> SelectAirports (like_pattern name) \<in> set rest)"
    by blast
next
  fix doc :: request
  assume "http_method doc = ''GET'' \<and> path doc \<in> set documentation_paths"
  then show "app doc s = (Some (Response 200 Documentation), s)"
    by (simp add: app_def)
qed

theorem gate_before_airport_endpoint_witness:
  "(fst (app \<lparr>http_method = ''GET'', path = ''/airportByName/JFK'',
               x_api_key = Some ''revoked-key''\<rparr> example_session) =
      Some (Response 401 (Detail ''Invalid or inactive API key'')) \<and>
    executed (snd (app \<lparr>http_method = ''GET'', path = ''/airportByName/JFK'',
                        x_api_key = Some ''revoked-key''\<rparr> example_session)) =
      [SelectAPIKey ''revoked-key'']) \<and>
   (\<exists>rest. executed (snd (app \<lparr>http_method = ''GET'', path = ''/airportByName/JFK'',
                               x_api_key = Some ''active-key''\<rparr> example_session)) =
      SelectAPIKey ''active-key'' # rest \<and> SelectAirports ''%JFK%'' \<in> set rest)"
proof -
  let ?rej = "\<lparr>http_method = ''GET'', path = ''/airportByName/JFK'',
      x_api_key = Some ''revoked-key''\<rparr>"
  let ?acc = "\<lparr>http_method = ''GET'', path = ''/airportByName/JFK'',
      x_api_key = Some ''active-key''\<rparr>"
  have rej: "fst (verify_api_key (x_api_key ?rej) example_session) =
      Inl (HTTPException 401 ''Invalid or inactive API key'')"
    by (simp add: example_session_def example_db_def verify_api_key_def query_api_key_def)
  have acc: "fst (verify_api_key (x_api_key ?acc) example_session) = Inr ()"
    by (simp add: example_session_def example_db_def verify_api_key_def query_api_key_def)
  have nil: "executed example_session = []" by (simp add: example_session_def)
  have a: "fst (app ?rej example_session) =
        Some (Response 401 (Detail ''Invalid or inactive API key'')) \<and>
      executed (snd (app ?rej example_session)) = [SelectAPIKey ''revoked-key'']"
    using gate_before_airport_endpoint [of ?rej "''JFK''" example_session] rej nil
    by (simp add: exception_response_def)
  have b: "\<exists>rest. executed (snd (app ?acc example_session)) =
      SelectAPIKey ''active-key'' # rest \<and> SelectAirports ''%JFK%'' \<in> set rest"
    using gate_before_airport_endpoint [of ?acc "''JFK''" example_session] acc nil
    by (simp add: like_pattern_def) blast
  from a b show ?thesis by (rule conjI)
qed

text \<open>
  The claim as it stands, for every route, fails at the route \<^verbatim>\<open>/docs\<close>: a request
  without a key, which the gate rejects, is answered 200 there, and nothing is sent to the
  database.
\<close>

theorem documentation_route_without_gate:
  "fst (verify_api_key None example_session) = Inl (HTTPException 401 ''Missing API key'') \<and>
   app \<lparr>http_method = ''GET'', path = ''/docs'', x_api_key = None\<rparr> example_session =
     (Some (Response 200 Documentation), example_session)"
  by (simp add: verify_api_key_def app_def documentation_paths_def)

section \<open>The example store, evaluated\<close>

lemma where_clause_JFK: "where_clause (like_pattern ''JFK'') kjfk"
  by (simp add: where_clause_def ilike_def like_pattern_def lower_def lower_char_def kjfk_def
      blank_airport_def)

lemma where_clause_ZZZZ:
  "\<not> where_clause (like_pattern ''ZZZZ'') kjfk" "\<not> where_clause (like_pattern ''ZZZZ'') lirf"
  by (simp_all add: where_clause_def ilike_def like_pattern_def lower_def lower_char_def kjfk_def
      lirf_def blank_airport_def)

lemmas example_rows = kjfk_def lirf_def blank_airport_def navaid_ost_def navaid_fco_def
  navaid_null_def navaid_blank_def navaid_dangling_def blank_navaid_def runway_kjfk_def
  frequency_kjfk_def country_us_def region_us_ny_def type_large_def

lemmas record_defs = airport.defs airport_obj.defs airport_schema.defs

lemma example_keys:
  "a_ident kjfk = ''KJFK''" "a_ident lirf = ''LIRF''"
  "at_code type_large = ''large_airport''" "c_code country_us = ''US''"
  "rg_code region_us_ny = ''US-NY''"
  "rw_airport_ident runway_kjfk = Some ''KJFK''" "f_airport_ident frequency_kjfk = Some ''KJFK''"
  "n_associated_airport navaid_ost = Some ''LIRF''"
  "n_associated_airport navaid_fco = Some ''LIRF''"
  "n_associated_airport navaid_null = None"
  "n_associated_airport navaid_blank = Some []"
  "n_associated_airport navaid_dangling = Some ''ZZZZ''"
  "n_id navaid_ost = 1" "n_id navaid_fco = 2" "n_id navaid_null = 3" "n_id navaid_blank = 4"
  "n_id navaid_dangling = 5"
  by (simp_all add: example_rows)

lemma kjfk_view_fields:
  "a_ident kjfk_view = ''KJFK''" "a_type kjfk_view = Some ''large_airport''"
  "a_iso_country kjfk_view = Some ''US''" "a_iso_region kjfk_view = Some ''US-NY''"
  "airport_type kjfk_view = Some type_large" "country kjfk_view = Some country_us"
  "region kjfk_view = Some region_us_ny" "navaids kjfk_view = []"
  "runways kjfk_view = [runway_kjfk]" "frequencies kjfk_view = [frequency_kjfk]"
  by (simp_all add: kjfk_view_def record_defs kjfk_def blank_airport_def)

lemma lirf_view_fields:
  "a_ident lirf_view = ''LIRF''" "a_type lirf_view = Some ''large_airport''"
  "a_iso_country lirf_view = Some ''IT''" "a_iso_region lirf_view = Some ''IT-62''"
  "airport_type lirf_view = Some type_large" "country lirf_view = None"
  "region lirf_view = None" "navaids lirf_view = [navaid_ost, navaid_fco]"
  "runways lirf_view = []" "frequencies lirf_view = []"
  by (simp_all add: lirf_view_def record_defs lirf_def blank_airport_def)

lemma a_ident_extend: "a_ident (airport.extend a m) = a_ident a"
  by (simp add: airport.defs)

lemma where_clause_examples:
  "where_clause ''%JFK%'' kjfk" "\<not> where_clause ''%JFK%'' lirf"
  "\<not> where_clause ''%Rome%'' kjfk" "where_clause ''%Rome%'' lirf"
  "where_clause ''%%%'' kjfk" "where_clause ''%%%'' lirf"
  by (simp_all add: where_clause_def ilike_def lower_def lower_char_def kjfk_def lirf_def
      blank_airport_def)

lemma select_kjfk:
  "select_airports example_db ''%JFK%'' =
     [((((kjfk, Some type_large), Some country_us), Some region_us_ny), None)]"
  by (simp add: select_airports_def left_outer_join_def example_db_def where_clause_examples)
    (simp add: example_rows)

lemma select_lirf:
  "select_airports example_db ''%Rome%'' =
     [((((lirf, Some type_large), None), None), Some navaid_ost),
      ((((lirf, Some type_large), None), None), Some navaid_fco)]"
  by (simp add: select_airports_def left_outer_join_def example_db_def where_clause_examples)
    (simp add: example_rows)

lemma run_endpoint_kjfk:
  "fst (run_endpoint ''JFK'' example_session) = Response 200 (Airports [kjfk_view])"
  apply (simp add: fst_run_endpoint like_pattern_def example_session_def select_kjfk)
  apply (simp add: unique_scalars_all_def load_airport_def row_airport_def row_airport_type_def
      row_country_def row_region_def row_navaid_def List.map_filter_simps fst_from_orm)
  apply (simp add: example_db_def example_keys kjfk_view_def a_ident_extend)
  done

lemma run_endpoint_lirf:
  "fst (run_endpoint ''Rome'' example_session) = Response 200 (Airports [lirf_view])"
  apply (simp add: fst_run_endpoint like_pattern_def example_session_def select_lirf)
  apply (simp add: unique_scalars_all_def load_airport_def row_airport_def row_airport_type_def
      row_country_def row_region_def row_navaid_def List.map_filter_simps fst_from_orm)
  apply (simp add: example_db_def example_keys lirf_view_def a_ident_extend)
  done

lemma example_tables:
  "airports_table (store example_session) = [kjfk, lirf]"
  "navaids_table (store example_session) =
     [navaid_ost, navaid_null, navaid_fco, navaid_blank, navaid_dangling]"
  "airport_types_table (store example_session) = [type_large]"
  "countries_table (store example_session) = [country_us]"
  "regions_table (store example_session) = [region_us_ny]"
  "runways_table (store example_session) = [runway_kjfk]"
  "frequencies_table (store example_session) = [frequency_kjfk]"
  by (simp_all add: example_session_def example_db_def)

lemma handle_request_kjfk:
  "fst (handle_request (Some ''active-key'') ''JFK'' example_session) =
     Response 200 (Airports [kjfk_view])"
proof -
  have "fst (verify_api_key (Some ''active-key'') example_session) = Inr ()"
    by (simp add: example_session_def example_db_def verify_api_key_def query_api_key_def)
  from handle_request_authorized [OF this]
  have run: "handle_request (Some ''active-key'') ''JFK'' example_session =
      run_endpoint ''JFK'' (snd (verify_api_key (Some ''active-key'') example_session))" .
  have "store (snd (verify_api_key (Some ''active-key'') example_session)) = store example_session"
    by (simp add: snd_verify_api_key)
  from fst_run_endpoint_store [OF this]
  have "fst (handle_request (Some ''active-key'') ''JFK'' example_session) =
      fst (run_endpoint ''JFK'' example_session)"
    by (simp only: run)
  then show ?thesis by (simp only: run_endpoint_kjfk)
qed

section \<open>The Query/Projection Engine: outcomes and contents\<close>

text \<open>
  The outcomes of the path operation in terms of the clause the code runs: for a name
  without NUL, 404 when no airport of the store satisfies the clause, and otherwise 200
  with a list that is not empty, of airports of the store that satisfy it.
\<close>

lemma outcomes_by_where_clause:
  assumes "CHR 0x00 \<notin> set name"
  shows "((\<forall>a \<in> set (airports_table (store s)). \<not> where_clause (like_pattern name) a) \<longrightarrow>
      fst (run_endpoint name s) =
        Response 404 (Detail ''No airport found with that name or ident'')) \<and>
   ((\<exists>a \<in> set (airports_table (store s)). where_clause (like_pattern name) a) \<longrightarrow>
      (\<exists>vs. fst (run_endpoint name s) = Response 200 (Airports vs) \<and> vs \<noteq> [] \<and>
         (\<forall>v \<in> set vs. airport.truncate v \<in> set (airports_table (store s)) \<and>
            where_clause (like_pattern name) (airport.truncate v))))"
proof (intro conjI impI)
  assume "\<forall>a \<in> set (airports_table (store s)). \<not> where_clause (like_pattern name) a"
  then have "select_airports (store s) (like_pattern name) = []"
    by (simp add: select_airports_Nil_iff)
  then show "fst (run_endpoint name s) =
      Response 404 (Detail ''No airport found with that name or ident'')"
    using assms by (simp add: fst_run_endpoint unique_scalars_all_Nil_iff)
next
  let ?rows = "select_airports (store s) (like_pattern name)"
  let ?vs = "map (\<lambda>a. fst (from_orm a s)) (unique_scalars_all ?rows)"
  assume "\<exists>a \<in> set (airports_table (store s)). where_clause (like_pattern name) a"
  then have rows: "?rows \<noteq> []" by (simp add: select_airports_Nil_iff)
  then have resp: "fst (run_endpoint name s) = Response 200 (Airports ?vs)"
    using assms by (simp add: fst_run_endpoint unique_scalars_all_Nil_iff)
  have ne: "?vs \<noteq> []" using rows by (simp add: unique_scalars_all_Nil_iff)
  have "airport.truncate v \<in> set (airports_table (store s)) \<and>
        where_clause (like_pattern name) (airport.truncate v)" if "v \<in> set ?vs" for v
  proof -
    from view_from_row [OF resp that] obtain r where r: "r \<in> set ?rows"
      and v: "v = fst (from_orm (load_airport ?rows r) s)" by blast
    have "airport.truncate v = row_airport r"
      by (simp add: v from_orm_columns load_airport_columns)
    with row_airport_selected [OF r] show ?thesis by simp
  qed
  with resp ne show "\<exists>vs. fst (run_endpoint name s) = Response 200 (Airports vs) \<and> vs \<noteq> [] \<and>
         (\<forall>v \<in> set vs. airport.truncate v \<in> set (airports_table (store s)) \<and>
            where_clause (like_pattern name) (airport.truncate v))"
    by blast
qed

text \<open>
  Deduplication: for a name without NUL, every airport of the store that satisfies the
  clause the code runs has exactly one object with its ident in the response, however
  many rows the joins produced for it; when idents are unique in the table, as the
  primary key makes them, that object carries the columns of the airport.
\<close>

lemma selected_airport_exactly_once:
  assumes "A \<in> set (airports_table (store s))" and "where_clause (like_pattern name) A"
    and nul: "CHR 0x00 \<notin> set name"
  shows "\<exists>vs. fst (run_endpoint name s) = Response 200 (Airports vs) \<and>
           length (filter (\<lambda>v. a_ident v = a_ident A) vs) = 1 \<and>
           (distinct (map a_ident (airports_table (store s))) \<longrightarrow>
              (\<forall>v \<in> set vs. a_ident v = a_ident A \<longrightarrow> airport.truncate v = A))"
proof -
  let ?rows = "select_airports (store s) (like_pattern name)"
  let ?objs = "unique_scalars_all ?rows"
  let ?vs = "map (\<lambda>a. fst (from_orm a s)) ?objs"
  from airport_has_row [OF assms(1,2)] obtain r where r: "r \<in> set ?rows" "row_airport r = A"
    by blast
  then have "?rows \<noteq> []" by auto
  then have resp: "fst (run_endpoint name s) = Response 200 (Airports ?vs)"
    using nul by (simp add: fst_run_endpoint unique_scalars_all_Nil_iff)
  have idents: "map a_ident ?vs = map a_ident ?objs"
    by (simp add: from_orm_columns)
  have "a_ident A \<in> a_ident ` set ?objs" using r by (auto simp: set_idents)
  then obtain obj where obj: "obj \<in> set ?objs" "a_ident obj = a_ident A" by auto
  have "distinct (map a_ident ?vs)" by (simp only: idents distinct_idents)
  moreover have "fst (from_orm obj s) \<in> set ?vs" using obj(1) by simp
  ultimately have "length (filter (\<lambda>v. a_ident v = a_ident (fst (from_orm obj s))) ?vs) = 1"
    by (rule once_if_distinct)
  then have once: "length (filter (\<lambda>v. a_ident v = a_ident A) ?vs) = 1"
    by (simp add: from_orm_columns obj(2))
  have "airport.truncate v = A"
    if pk: "distinct (map a_ident (airports_table (store s)))" and v: "v \<in> set ?vs"
      and same: "a_ident v = a_ident A" for v
  proof -
    from view_from_row [OF resp v] obtain r' where r': "r' \<in> set ?rows"
      and v': "v = fst (from_orm (load_airport ?rows r') s)" by blast
    have tr: "airport.truncate v = row_airport r'"
      by (simp add: v' from_orm_columns load_airport_columns)
    have "a_ident v = a_ident (row_airport r')"
      by (simp add: v' from_orm_columns load_airport_columns)
    with same have "a_ident (row_airport r') = a_ident A" by simp
    with same_key_same_row [OF pk _ assms(1)] row_airport_selected [OF r']
    have "row_airport r' = A" by blast
    with tr show ?thesis by simp
  qed
  with resp once show ?thesis by blast
qed

lemma status_run_endpoint:
  "status_code (fst (run_endpoint name s)) =
     (if CHR 0x00 \<in> set name then 500
      else if (\<forall>a \<in> set (airports_table (store s)). \<not> where_clause (like_pattern name) a)
      then 404 else 200)"
  by (simp add: fst_run_endpoint unique_scalars_all_Nil_iff select_airports_Nil_iff)

text \<open>
  Claim C5, as amended. With \<^verbatim>\<open>Navaid.id\<close> unique, as the primary key makes it: a navaid
  of the store is in the navaids of a returned airport exactly when its
  \<^verbatim>\<open>associated_airport\<close> equals the ident of the airport. So a navaid whose
  \<^verbatim>\<open>associated_airport\<close> is NULL, or is the ident of no airport, is in the navaids of no
  returned airport, and a navaid with a blank \<^verbatim>\<open>associated_airport\<close> is in the navaids of
  exactly the returned airports whose ident is blank. The status of the response is the
  same whatever the table of navaids holds: no navaid makes the query fail.
\<close>

theorem navaids_by_exact_ident:
  assumes "fst (run_endpoint name s) = Response 200 (Airports vs)"
    and "distinct (map n_id (navaids_table (store s)))"
    and "N \<in> set (navaids_table (store s))"
  shows "(\<forall>v \<in> set vs. N \<in> set (navaids v) \<longleftrightarrow> n_associated_airport N = Some (a_ident v)) \<and>
         (n_associated_airport N = None \<or>
          n_associated_airport N \<notin> Some ` a_ident ` set (airports_table (store s)) \<longrightarrow>
            (\<forall>v \<in> set vs. N \<notin> set (navaids v))) \<and>
         (n_associated_airport N = Some [] \<longrightarrow>
            (\<forall>v \<in> set vs. N \<in> set (navaids v) \<longleftrightarrow> a_ident v = [])) \<and>
         (\<forall>ns. status_code
                 (fst (run_endpoint name (s\<lparr>store := (store s)\<lparr>navaids_table := ns\<rparr>\<rparr>))) =
               status_code (fst (run_endpoint name s)))"
proof -
  have iff: "N \<in> set (navaids v) \<longleftrightarrow> n_associated_airport N = Some (a_ident v)"
    if "v \<in> set vs" for v
    using navaids_of_view [OF assms(1) that assms(2)] assms(3) by auto
  have known: "a_ident v \<in> a_ident ` set (airports_table (store s))" if v: "v \<in> set vs" for v
  proof -
    let ?rows = "select_airports (store s) (like_pattern name)"
    from view_from_row [OF assms(1) v] obtain r where r: "r \<in> set ?rows"
      and v': "v = fst (from_orm (load_airport ?rows r) s)" by blast
    have "a_ident v = a_ident (row_airport r)"
      by (simp add: v' from_orm_columns load_airport_columns)
    with row_airport_selected [OF r] show ?thesis by auto
  qed
  show ?thesis
  proof (intro conjI ballI impI allI)
    fix v assume "v \<in> set vs"
    then show "N \<in> set (navaids v) \<longleftrightarrow> n_associated_airport N = Some (a_ident v)"
      by (rule iff)
  next
    fix v
    assume none: "n_associated_airport N = None \<or>
        n_associated_airport N \<notin> Some ` a_ident ` set (airports_table (store s))"
      and v: "v \<in> set vs"
    show "N \<notin> set (navaids v)"
    proof
      assume "N \<in> set (navaids v)"
      then have "n_associated_airport N = Some (a_ident v)" using iff [OF v] by simp
      moreover have "Some (a_ident v) \<in> Some ` a_ident ` set (airports_table (store s))"
        using known [OF v] by simp
      ultimately show False using none by simp
    qed
  next
    fix v
    assume "n_associated_airport N = Some []" and "v \<in> set vs"
    then show "N \<in> set (navaids v) \<longleftrightarrow> a_ident v = []"
      using iff [of v] by auto
  next
    fix ns
    show "status_code
        (fst (run_endpoint name (s\<lparr>store := (store s)\<lparr>navaids_table := ns\<rparr>\<rparr>))) =
      status_code (fst (run_endpoint name s))"
      by (simp only: status_run_endpoint) simp
  qed
qed

theorem navaids_by_exact_ident_witness:
  "fst (run_endpoint ''Rome'' example_session) = Response 200 (Airports [lirf_view]) \<and>
   a_ident lirf_view = ''LIRF'' \<and>
   navaid_ost \<in> set (navaids lirf_view) \<and> navaid_fco \<in> set (navaids lirf_view) \<and>
   navaid_null \<notin> set (navaids lirf_view) \<and> navaid_blank \<notin> set (navaids lirf_view) \<and>
   navaid_dangling \<notin> set (navaids lirf_view)"
proof -
  have pk: "distinct (map n_id (navaids_table (store example_session)))"
    by (simp add: example_tables example_keys)
  have iff: "N \<in> set (navaids lirf_view) \<longleftrightarrow> n_associated_airport N = Some ''LIRF''"
    if "N \<in> set (navaids_table (store example_session))" for N
    using navaids_by_exact_ident [OF run_endpoint_lirf pk that, THEN conjunct1]
    by (simp add: lirf_view_fields)
  have "navaid_ost \<in> set (navaids lirf_view)"
    using iff [of navaid_ost] by (simp add: example_tables example_keys)
  moreover have "navaid_fco \<in> set (navaids lirf_view)"
    using iff [of navaid_fco] by (simp add: example_tables example_keys)
  moreover have "navaid_null \<notin> set (navaids lirf_view)"
    using iff [of navaid_null] by (simp add: example_tables example_keys)
  moreover have "navaid_blank \<notin> set (navaids lirf_view)"
    using iff [of navaid_blank] by (simp add: example_tables example_keys)
  moreover have "navaid_dangling \<notin> set (navaids lirf_view)"
    using iff [of navaid_dangling] by (simp add: example_tables example_keys)
  ultimately show ?thesis using run_endpoint_lirf lirf_view_fields(1) by blast
qed

text \<open>
  The claim as it stands says that a navaid with a blank \<^verbatim>\<open>associated_airport\<close> is under
  no airport. In the store whose airport has the empty ident, the query "Field" returns
  that airport with the blank navaid among its navaids.
\<close>

theorem blank_navaid_under_blank_ident:
  "n_associated_airport navaid_blank = Some [] \<and>
   navaid_blank \<in> set (navaids_table (store blank_ident_session)) \<and>
   fst (run_endpoint ''Field'' blank_ident_session) = Response 200 (Airports [blank_ident_view]) \<and>
   navaid_blank \<in> set (navaids blank_ident_view)"
proof -
  have w: "where_clause ''%Field%'' blank_ident_airport"
    by (simp add: where_clause_def ilike_def lower_def lower_char_def blank_ident_airport_def
        blank_airport_def)
  have cols: "a_ident blank_ident_airport = []" "a_type blank_ident_airport = None"
    "a_iso_country blank_ident_airport = None" "a_iso_region blank_ident_airport = None"
    by (simp_all add: blank_ident_airport_def blank_airport_def)
  have rows: "select_airports (store blank_ident_session) ''%Field%'' =
      [((((blank_ident_airport, None), None), None), Some navaid_blank)]"
    by (simp add: select_airports_def left_outer_join_def blank_ident_session_def
        example_db_def w cols example_keys)
  have resp: "fst (run_endpoint ''Field'' blank_ident_session) =
      Response 200 (Airports [blank_ident_view])"
    apply (simp add: fst_run_endpoint like_pattern_def rows)
    apply (simp add: unique_scalars_all_def load_airport_def row_airport_def
        row_airport_type_def row_country_def row_region_def row_navaid_def
        List.map_filter_simps fst_from_orm)
    apply (simp add: blank_ident_session_def example_db_def example_keys cols
        blank_ident_view_def a_ident_extend)
    done
  have "navaids blank_ident_view = [navaid_blank]"
    by (simp add: blank_ident_view_def record_defs)
  then have "navaid_blank \<in> set (navaids blank_ident_view)" by simp
  moreover have "n_associated_airport navaid_blank = Some []" by (simp add: example_keys)
  moreover have "navaid_blank \<in> set (navaids_table (store blank_ident_session))"
    by (simp add: blank_ident_session_def example_db_def)
  ultimately show ?thesis using resp by simp
qed

text \<open>
  Claim C6. In a 200 response every airport carries all runways and all frequencies of
  the store whose \<^verbatim>\<open>airport_ident\<close> equals its ident. The query does not load them; they
  are loaded when the response model reads them, by statements sent within the request,
  before the response exists.
\<close>

theorem runways_and_frequencies_in_response:
  assumes "fst (handle_request api_key name s) = Response 200 (Airports vs)" and "v \<in> set vs"
  shows "runways v =
           filter (\<lambda>r. rw_airport_ident r = Some (a_ident v)) (runways_table (store s)) \<and>
         frequencies v =
           filter (\<lambda>f. f_airport_ident f = Some (a_ident v)) (frequencies_table (store s)) \<and>
         SelectRunways (a_ident v) \<in> set (executed (snd (handle_request api_key name s))) \<and>
         SelectFrequencies (a_ident v) \<in> set (executed (snd (handle_request api_key name s)))"
proof -
  let ?s1 = "snd (verify_api_key api_key s)"
  let ?objs = "unique_scalars_all (select_airports (store ?s1) (like_pattern name))"
  have run: "handle_request api_key name s = run_endpoint name ?s1"
    by (rule handle_request_200 [OF assms(1)])
  have st: "store ?s1 = store s" by (simp add: snd_verify_api_key)
  have resp: "fst (run_endpoint name ?s1) = Response 200 (Airports vs)"
    using assms(1) by (simp add: run)
  from response_200 [OF resp] assms(2) obtain obj where obj: "obj \<in> set ?objs"
    and v: "v = fst (from_orm obj ?s1)" by auto
  have id: "a_ident v = a_ident obj" by (simp add: v from_orm_columns)
  have "SelectRunways (a_ident obj) \<in> set (executed (snd (run_endpoint name ?s1)))"
    "SelectFrequencies (a_ident obj) \<in> set (executed (snd (run_endpoint name ?s1)))"
    using obj response_200_no_nul [OF resp] by (auto simp: executed_run_endpoint_all)
  then show ?thesis by (simp add: run id) (simp add: v from_orm_relationships st)
qed

theorem runways_and_frequencies_in_response_witness:
  "fst (handle_request (Some ''active-key'') ''JFK'' example_session) =
     Response 200 (Airports [kjfk_view]) \<and>
   a_ident kjfk_view = ''KJFK'' \<and> length (runways kjfk_view) = 1 \<and>
   length (frequencies kjfk_view) = 1 \<and> length (navaids kjfk_view) = 0 \<and>
   map_option c_code (country kjfk_view) = Some ''US'' \<and>
   SelectRunways ''KJFK'' \<in>
     set (executed (snd (handle_request (Some ''active-key'') ''JFK'' example_session))) \<and>
   SelectFrequencies ''KJFK'' \<in>
     set (executed (snd (handle_request (Some ''active-key'') ''JFK'' example_session)))"
proof -
  have "kjfk_view \<in> set [kjfk_view]" by simp
  from runways_and_frequencies_in_response [OF handle_request_kjfk this]
  have rw: "runways kjfk_view =
      filter (\<lambda>r. rw_airport_ident r = Some ''KJFK'') (runways_table (store example_session))"
    and fr: "frequencies kjfk_view =
      filter (\<lambda>f. f_airport_ident f = Some ''KJFK'') (frequencies_table (store example_session))"
    and q1: "SelectRunways ''KJFK'' \<in>
        set (executed (snd (handle_request (Some ''active-key'') ''JFK'' example_session)))"
    and q2: "SelectFrequencies ''KJFK'' \<in>
        set (executed (snd (handle_request (Some ''active-key'') ''JFK'' example_session)))"
    by (simp_all only: kjfk_view_fields(1))
  have l1: "length (runways kjfk_view) = 1" by (simp add: rw example_tables example_keys)
  have l2: "length (frequencies kjfk_view) = 1" by (simp add: fr example_tables example_keys)
  have l3: "length (navaids kjfk_view) = 0" by (simp add: kjfk_view_fields)
  have l4: "map_option c_code (country kjfk_view) = Some ''US''"
    by (simp add: kjfk_view_fields example_keys)
  show ?thesis
    by (intro conjI) (rule handle_request_kjfk kjfk_view_fields(1) l1 l2 l3 l4 q1 q2)+
qed

text \<open>
  Claim C7. With the codes of the three reference tables unique, as their primary keys
  make them: the nested airport type, country and region of a returned airport are the
  rows whose code equals the airport's \<^verbatim>\<open>type\<close>, \<^verbatim>\<open>iso_country\<close> and \<^verbatim>\<open>iso_region\<close>, and
  are absent when no row has that code. The three collections are lists, empty when no
  row of their table belongs to the airport.
\<close>

theorem nested_rows_and_empty_collections:
  assumes "fst (run_endpoint name s) = Response 200 (Airports vs)" and "v \<in> set vs"
    and "distinct (map at_code (airport_types_table (store s)))"
    and "distinct (map c_code (countries_table (store s)))"
    and "distinct (map rg_code (regions_table (store s)))"
  shows "(\<forall>t \<in> set (airport_types_table (store s)).
            a_type v = Some (at_code t) \<longrightarrow> airport_type v = Some t) \<and>
         ((\<forall>t \<in> set (airport_types_table (store s)). a_type v \<noteq> Some (at_code t)) \<longrightarrow>
            airport_type v = None) \<and>
         (\<forall>c \<in> set (countries_table (store s)).
            a_iso_country v = Some (c_code c) \<longrightarrow> country v = Some c) \<and>
         ((\<forall>c \<in> set (countries_table (store s)). a_iso_country v \<noteq> Some (c_code c)) \<longrightarrow>
            country v = None) \<and>
         (\<forall>g \<in> set (regions_table (store s)).
            a_iso_region v = Some (rg_code g) \<longrightarrow> region v = Some g) \<and>
         ((\<forall>g \<in> set (regions_table (store s)). a_iso_region v \<noteq> Some (rg_code g)) \<longrightarrow>
            region v = None) \<and>
         ((\<forall>r \<in> set (runways_table (store s)). rw_airport_ident r \<noteq> Some (a_ident v)) \<longrightarrow>
            runways v = []) \<and>
         ((\<forall>f \<in> set (frequencies_table (store s)). f_airport_ident f \<noteq> Some (a_ident v)) \<longrightarrow>
            frequencies v = []) \<and>
         ((\<forall>n \<in> set (navaids_table (store s)). n_associated_airport n \<noteq> Some (a_ident v)) \<longrightarrow>
            navaids v = [])"
proof -
  let ?rows = "select_airports (store s) (like_pattern name)"
  from view_from_row [OF assms(1,2)] obtain r where r: "r \<in> set ?rows"
    and v: "v = fst (from_orm (load_airport ?rows r) s)" by blast
  obtain a t c g n where eq: "r = ((((a, t), c), g), n)" by (metis surj_pair)
  have cols: "a_type v = a_type a" "a_iso_country v = a_iso_country a"
    "a_iso_region v = a_iso_region a" "a_ident v = a_ident a"
    by (simp_all add: v eq from_orm_columns load_airport_columns row_airport_def)
  have rels: "airport_type v = t" "country v = c" "region v = g"
    by (simp_all add: v eq from_orm_relationships load_airport_relationships
        row_airport_type_def row_country_def row_region_def)
  from r have J: "case t of None \<Rightarrow> \<forall>y \<in> set (airport_types_table (store s)). a_type a \<noteq> Some (at_code y)
      | Some y \<Rightarrow> y \<in> set (airport_types_table (store s)) \<and> a_type a = Some (at_code y)"
    "case c of None \<Rightarrow> \<forall>y \<in> set (countries_table (store s)). a_iso_country a \<noteq> Some (c_code y)
      | Some y \<Rightarrow> y \<in> set (countries_table (store s)) \<and> a_iso_country a = Some (c_code y)"
    "case g of None \<Rightarrow> \<forall>y \<in> set (regions_table (store s)). a_iso_region a \<noteq> Some (rg_code y)
      | Some y \<Rightarrow> y \<in> set (regions_table (store s)) \<and> a_iso_region a = Some (rg_code y)"
    by (simp_all add: eq in_select_airports)
  have ty: "airport_type v = Some y" if "y \<in> set (airport_types_table (store s))"
    "a_type v = Some (at_code y)" for y
    using J(1) that same_key_same_row [OF assms(3) _ that(1)]
    by (cases t) (auto simp: cols rels)
  have ty0: "airport_type v = None"
    if "\<forall>y \<in> set (airport_types_table (store s)). a_type v \<noteq> Some (at_code y)"
    using J(1) that by (cases t) (auto simp: cols rels)
  have co: "country v = Some y" if "y \<in> set (countries_table (store s))"
    "a_iso_country v = Some (c_code y)" for y
    using J(2) that same_key_same_row [OF assms(4) _ that(1)]
    by (cases c) (auto simp: cols rels)
  have co0: "country v = None"
    if "\<forall>y \<in> set (countries_table (store s)). a_iso_country v \<noteq> Some (c_code y)"
    using J(2) that by (cases c) (auto simp: cols rels)
  have re: "region v = Some y" if "y \<in> set (regions_table (store s))"
    "a_iso_region v = Some (rg_code y)" for y
    using J(3) that same_key_same_row [OF assms(5) _ that(1)]
    by (cases g) (auto simp: cols rels)
  have re0: "region v = None"
    if "\<forall>y \<in> set (regions_table (store s)). a_iso_region v \<noteq> Some (rg_code y)"
    using J(3) that by (cases g) (auto simp: cols rels)
  have rw: "runways v = []"
    if "\<forall>y \<in> set (runways_table (store s)). rw_airport_ident y \<noteq> Some (a_ident v)"
    using that by (simp add: v from_orm_relationships from_orm_columns filter_empty_conv)
  have fr: "frequencies v = []"
    if "\<forall>y \<in> set (frequencies_table (store s)). f_airport_ident y \<noteq> Some (a_ident v)"
    using that by (simp add: v from_orm_relationships from_orm_columns filter_empty_conv)
  have nv: "navaids v = []"
    if none: "\<forall>y \<in> set (navaids_table (store s)). n_associated_airport y \<noteq> Some (a_ident v)"
  proof -
    have "set (List.map_filter row_navaid
        (filter (\<lambda>r'. a_ident (row_airport r') = a_ident (row_airport r)) ?rows)) = {}"
      using none by (simp add: navaids_of_row [OF r]) (simp add: eq row_airport_def cols)
    then show ?thesis
      by (simp add: v from_orm_relationships load_airport_relationships)
  qed
  from ty ty0 co co0 re re0 rw fr nv show ?thesis by blast
qed

theorem nested_rows_and_empty_collections_witness:
  "(fst (run_endpoint ''JFK'' example_session) = Response 200 (Airports [kjfk_view]) \<and>
      airport_type kjfk_view = Some type_large \<and> country kjfk_view = Some country_us \<and>
      region kjfk_view = Some region_us_ny \<and> navaids kjfk_view = []) \<and>
   (fst (run_endpoint ''Rome'' example_session) = Response 200 (Airports [lirf_view]) \<and>
      country lirf_view = None \<and> region lirf_view = None \<and> runways lirf_view = [] \<and>
      frequencies lirf_view = [])"
proof -
  have pk: "distinct (map at_code (airport_types_table (store example_session)))"
    "distinct (map c_code (countries_table (store example_session)))"
    "distinct (map rg_code (regions_table (store example_session)))"
    by (simp_all add: example_tables)
  have "kjfk_view \<in> set [kjfk_view]" by simp
  from nested_rows_and_empty_collections [OF run_endpoint_kjfk this pk]
  have k: "airport_type kjfk_view = Some type_large" "country kjfk_view = Some country_us"
    "region kjfk_view = Some region_us_ny" "navaids kjfk_view = []"
    by (simp_all add: example_tables example_keys kjfk_view_fields(1-4))
  have "lirf_view \<in> set [lirf_view]" by simp
  from nested_rows_and_empty_collections [OF run_endpoint_lirf this pk]
  have l: "country lirf_view = None" "region lirf_view = None" "runways lirf_view = []"
    "frequencies lirf_view = []"
    by (simp_all add: example_tables example_keys lirf_view_fields(1-4))
  from k l run_endpoint_kjfk run_endpoint_lirf show ?thesis by blast
qed


section \<open>The matching policy: LIKE wildcards in the query\<close>

text \<open>
  The pattern of the query never ends in a lone backslash, whatever the name: the error
  of the database for such a pattern does not arise.
\<close>

lemma not_ends_in_escape_percent: "\<not> ends_in_escape (s @ ''%'')"
  by (induction s rule: ends_in_escape.induct) simp_all

lemma like_pattern_well_formed: "\<not> ends_in_escape (lower (like_pattern name))"
proof -
  have "lower (like_pattern name) = (CHR ''%'' # lower name) @ ''%''"
    by (simp add: like_pattern_def lower_def lower_char_def)
  then show ?thesis by (simp only: not_ends_in_escape_percent not_False_eq_True)
qed


text \<open>
  For a query without \<^verbatim>\<open>%\<close>, \<^verbatim>\<open>_\<close> and backslash, the clause the code runs is the
  substring policy of the specification.
\<close>

lemma starts_with_Nil: "starts_with [] s = (s = [])"
  by (cases s) simp_all

lemma starts_with_iff: "starts_with t s \<longleftrightarrow> (\<exists>v. t = s @ v)"
  by (induction t s rule: starts_with.induct) auto

lemma contains_iff: "contains s t \<longleftrightarrow> (\<exists>u v. t = u @ s @ v)"
proof (induction t)
  case Nil
  show ?case by auto
next
  case (Cons c cs)
  show ?case
  proof
    assume "contains s (c # cs)"
    then consider "starts_with (c # cs) s" | "contains s cs" by auto
    then show "\<exists>u v. c # cs = u @ s @ v"
    proof cases
      case 1
      then obtain v where "c # cs = s @ v" by (auto simp: starts_with_iff)
      then have "c # cs = [] @ s @ v" by simp
      then show ?thesis by blast
    next
      case 2
      then obtain u v where "cs = u @ s @ v" using Cons.IH by blast
      then have "c # cs = (c # u) @ s @ v" by simp
      then show ?thesis by blast
    qed
  next
    assume "\<exists>u v. c # cs = u @ s @ v"
    then obtain u v where uv: "c # cs = u @ s @ v" by blast
    show "contains s (c # cs)"
    proof (cases u)
      case Nil
      with uv have "starts_with (c # cs) s" by (auto simp: starts_with_iff)
      then show ?thesis by simp
    next
      case (Cons d ds)
      with uv have "cs = ds @ s @ v" by simp
      then have "contains s cs" using Cons.IH by blast
      then show ?thesis by simp
    qed
  qed
qed

lemma like_match_percent: "like_match ''%'' t"
  by (induction t) simp_all

lemma like_match_plain_prefix:
  "plain s \<Longrightarrow> like_match (s @ ''%'') t = starts_with t s"
proof (induction s arbitrary: t)
  case Nil
  show ?case using like_match_percent by simp
next
  case (Cons c s)
  then have c: "c \<noteq> CHR ''%''" "c \<noteq> CHR ''_''" "c \<noteq> CHR 0x5C" and s: "plain s"
    by (auto simp: plain_def)
  show ?case
  proof (cases t)
    case Nil
    with c show ?thesis by simp
  next
    case (Cons d ds)
    with c Cons.IH [OF s, of ds] show ?thesis by auto
  qed
qed

lemma like_match_plain_contains:
  "plain s \<Longrightarrow> like_match (CHR ''%'' # s @ ''%'') t = contains s t"
proof (induction t)
  case Nil
  then show ?case by (simp add: like_match_plain_prefix starts_with_Nil)
next
  case (Cons c cs)
  then show ?case by (simp add: like_match_plain_prefix)
qed

lemma lower_char_special:
  "lower_char c = CHR ''%'' \<longleftrightarrow> c = CHR ''%''"
  "lower_char c = CHR ''_'' \<longleftrightarrow> c = CHR ''_''"
  "lower_char c = CHR 0x5C \<longleftrightarrow> c = CHR 0x5C"
  by (auto simp: lower_char_def)

lemma special_in_lower:
  "CHR ''%'' \<in> set (lower s) \<longleftrightarrow> CHR ''%'' \<in> set s"
  "CHR ''_'' \<in> set (lower s) \<longleftrightarrow> CHR ''_'' \<in> set s"
  "CHR 0x5C \<in> set (lower s) \<longleftrightarrow> CHR 0x5C \<in> set s"
  using lower_char_special by (induction s) (simp_all add: lower_def, metis+)

lemma plain_lower: "plain (lower s) = plain s"
  by (simp add: plain_def special_in_lower)

lemma lower_like_pattern: "lower (like_pattern q) = CHR ''%'' # lower q @ ''%''"
  by (simp add: like_pattern_def lower_def lower_char_def)

lemma sql_or_True_iff: "sql_or a b = Some True \<longleftrightarrow> a = Some True \<or> b = Some True"
  by (induction a b rule: sql_or.induct) auto

lemma where_clause_iff:
  "where_clause pat a \<longleftrightarrow>
     (case a_name a of None \<Rightarrow> False | Some n \<Rightarrow> like_match (lower pat) (lower n)) \<or>
     like_match (lower pat) (lower (a_ident a))"
  by (cases "a_name a") (simp_all add: where_clause_def ilike_def sql_or_True_iff)

lemma plain_query_is_substring_match:
  "plain query \<Longrightarrow> where_clause (like_pattern query) a = spec_matches query a"
  by (simp add: where_clause_iff lower_like_pattern like_match_plain_contains plain_lower
      spec_matches_def icontains_def del: like_match.simps cong: option.case_cong)


text \<open>Queries with a wildcard, on the example store.\<close>

lemma where_clause_wildcards:
  "where_clause ''%K_FK%'' kjfk" "\<not> where_clause ''%K_FK%'' lirf"
  by (simp_all add: where_clause_def ilike_def lower_def lower_char_def kjfk_def lirf_def
      blank_airport_def)

lemma select_percent:
  "select_airports example_db ''%%%'' =
     [((((kjfk, Some type_large), Some country_us), Some region_us_ny), None),
      ((((lirf, Some type_large), None), None), Some navaid_ost),
      ((((lirf, Some type_large), None), None), Some navaid_fco)]"
  by (simp add: select_airports_def left_outer_join_def example_db_def where_clause_examples)
    (simp add: example_rows)

lemma select_underscore:
  "select_airports example_db ''%K_FK%'' =
     [((((kjfk, Some type_large), Some country_us), Some region_us_ny), None)]"
  by (simp add: select_airports_def left_outer_join_def example_db_def where_clause_wildcards)
    (simp add: example_rows)

lemma run_endpoint_percent:
  "fst (run_endpoint ''%'' example_session) = Response 200 (Airports [kjfk_view, lirf_view])"
  apply (simp add: fst_run_endpoint like_pattern_def example_session_def select_percent)
  apply (simp add: unique_scalars_all_def load_airport_def row_airport_def row_airport_type_def
      row_country_def row_region_def row_navaid_def List.map_filter_simps fst_from_orm)
  apply (simp add: example_db_def example_keys kjfk_view_def lirf_view_def a_ident_extend)
  done

lemma run_endpoint_underscore:
  "fst (run_endpoint ''K_FK'' example_session) = Response 200 (Airports [kjfk_view])"
  apply (simp add: fst_run_endpoint like_pattern_def example_session_def select_underscore)
  apply (simp add: unique_scalars_all_def load_airport_def row_airport_def row_airport_type_def
      row_country_def row_region_def row_navaid_def List.map_filter_simps fst_from_orm)
  apply (simp add: example_db_def example_keys kjfk_view_def a_ident_extend)
  done

lemma view_columns:
  "airport.truncate kjfk_view = kjfk" "airport.truncate lirf_view = lirf"
  "a_name kjfk_view = Some ''John F Kennedy Intl''" "a_name lirf_view = Some ''Rome Fiumicino''"
  by (simp_all add: kjfk_view_def lirf_view_def record_defs kjfk_def lirf_def blank_airport_def)

lemma no_wildcard_substring:
  "\<not> spec_matches ''%'' kjfk" "\<not> spec_matches ''%'' lirf" "\<not> spec_matches ''K_FK'' kjfk"
  "\<not> contains ''%'' ''John F Kennedy Intl''" "\<not> contains ''%'' ''KJFK''"
  "\<not> contains ''K_FK'' ''John F Kennedy Intl''" "\<not> contains ''K_FK'' ''KJFK''"
  by (simp_all add: spec_matches_def icontains_def lower_def lower_char_def kjfk_def lirf_def
      blank_airport_def)

text \<open>
  Claim C1. The claim is that an airport is returned exactly when its name or its ident
  contains the query as a case-insensitive substring. The code puts the query into the
  LIKE pattern as it is, so the query \<^verbatim>\<open>%\<close> returns both airports of the example store,
  though neither the name nor the ident of either contains a \<^verbatim>\<open>%\<close>.
\<close>

theorem percent_query_returns_airports_without_substring:
  "fst (run_endpoint ''%'' example_session) = Response 200 (Airports [kjfk_view, lirf_view]) \<and>
   airport.truncate kjfk_view = kjfk \<and> airport.truncate lirf_view = lirf \<and>
   \<not> spec_matches ''%'' kjfk \<and> \<not> spec_matches ''%'' lirf"
  by (intro conjI) (rule run_endpoint_percent view_columns no_wildcard_substring)+

text \<open>
  Claim C10. There are queries with a \<^verbatim>\<open>%\<close> and queries with a \<^verbatim>\<open>_\<close> whose response holds
  an airport that has the query as a substring neither in its name nor in its ident,
  literally or with case folded: the queries \<^verbatim>\<open>%\<close> and \<^verbatim>\<open>K_FK\<close> both return KJFK.
\<close>

theorem wildcard_query_matches_without_substring:
  "(\<exists>s vs v n. CHR ''%'' \<in> set ''%'' \<and>
      fst (run_endpoint ''%'' s) = Response 200 (Airports vs) \<and> v \<in> set vs \<and>
      a_name v = Some n \<and> \<not> contains ''%'' n \<and> \<not> contains ''%'' (a_ident v) \<and>
      \<not> spec_matches ''%'' (airport.truncate v)) \<and>
   (\<exists>s vs v n. CHR ''_'' \<in> set ''K_FK'' \<and>
      fst (run_endpoint ''K_FK'' s) = Response 200 (Airports vs) \<and> v \<in> set vs \<and>
      a_name v = Some n \<and> \<not> contains ''K_FK'' n \<and> \<not> contains ''K_FK'' (a_ident v) \<and>
      \<not> spec_matches ''K_FK'' (airport.truncate v))"
proof
  have "CHR ''%'' \<in> set ''%''" by simp
  moreover have "kjfk_view \<in> set [kjfk_view, lirf_view]" by simp
  moreover have "\<not> contains ''%'' (a_ident kjfk_view)"
    by (simp only: kjfk_view_fields no_wildcard_substring) simp
  moreover have "\<not> spec_matches ''%'' (airport.truncate kjfk_view)"
    by (simp only: view_columns no_wildcard_substring) simp
  ultimately show "\<exists>s vs v n. CHR ''%'' \<in> set ''%'' \<and>
      fst (run_endpoint ''%'' s) = Response 200 (Airports vs) \<and> v \<in> set vs \<and>
      a_name v = Some n \<and> \<not> contains ''%'' n \<and> \<not> contains ''%'' (a_ident v) \<and>
      \<not> spec_matches ''%'' (airport.truncate v)"
    using run_endpoint_percent view_columns(3) no_wildcard_substring(4) by blast
next
  have "CHR ''_'' \<in> set ''K_FK''" by simp
  moreover have "kjfk_view \<in> set [kjfk_view]" by simp
  moreover have "\<not> contains ''K_FK'' (a_ident kjfk_view)"
    by (simp only: kjfk_view_fields no_wildcard_substring) simp
  moreover have "\<not> spec_matches ''K_FK'' (airport.truncate kjfk_view)"
    by (simp only: view_columns no_wildcard_substring) simp
  ultimately show "\<exists>s vs v n. CHR ''_'' \<in> set ''K_FK'' \<and>
      fst (run_endpoint ''K_FK'' s) = Response 200 (Airports vs) \<and> v \<in> set vs \<and>
      a_name v = Some n \<and> \<not> contains ''K_FK'' n \<and> \<not> contains ''K_FK'' (a_ident v) \<and>
      \<not> spec_matches ''K_FK'' (airport.truncate v)"
    using run_endpoint_underscore view_columns(3) no_wildcard_substring(6) by blast
qed



text \<open>
  For a query without \<^verbatim>\<open>%\<close>, \<^verbatim>\<open>_\<close>, backslash and NUL, the outcomes and the
  deduplication hold in the words of the specification, with the substring match.
\<close>

lemma plain_query_outcomes:
  assumes "plain name" and "CHR 0x00 \<notin> set name"
  shows "((\<forall>a \<in> set (airports_table (store s)). \<not> spec_matches name a) \<longrightarrow>
      fst (run_endpoint name s) =
        Response 404 (Detail ''No airport found with that name or ident'')) \<and>
   ((\<exists>a \<in> set (airports_table (store s)). spec_matches name a) \<longrightarrow>
      (\<exists>vs. fst (run_endpoint name s) = Response 200 (Airports vs) \<and> vs \<noteq> [] \<and>
         (\<forall>v \<in> set vs. airport.truncate v \<in> set (airports_table (store s)) \<and>
            spec_matches name (airport.truncate v))))"
  using outcomes_by_where_clause [OF assms(2), of s]
  by (simp only: plain_query_is_substring_match [OF assms(1)])

lemma plain_query_exactly_once:
  assumes "plain name" and "CHR 0x00 \<notin> set name"
    and "A \<in> set (airports_table (store s))" and "spec_matches name A"
  shows "\<exists>vs. fst (run_endpoint name s) = Response 200 (Airports vs) \<and>
           length (filter (\<lambda>v. a_ident v = a_ident A) vs) = 1"
proof -
  have "where_clause (like_pattern name) A"
    using assms(4) by (simp only: plain_query_is_substring_match [OF assms(1)])
  from selected_airport_exactly_once [OF assms(3) this assms(2)] show ?thesis by blast
qed

text \<open>
  Claim C3. The claim is that a query no airport matches is answered 404. Matching is
  the substring match of the specification; the code runs the query as a LIKE pattern.
  For the query \<^verbatim>\<open>_\<close> no airport of the example store has the query in its name or in
  its ident, and the response is 200 with a list that is not empty.
\<close>

theorem underscore_query_is_answered_200:
  "airports_table (store example_session) = [kjfk, lirf] \<and>
   \<not> spec_matches ''_'' kjfk \<and> \<not> spec_matches ''_'' lirf \<and>
   (\<exists>vs. fst (run_endpoint ''_'' example_session) = Response 200 (Airports vs) \<and> vs \<noteq> [])"
proof -
  have "where_clause (like_pattern ''_'') kjfk"
    by (simp add: where_clause_def ilike_def like_pattern_def lower_def lower_char_def kjfk_def
        blank_airport_def)
  then have "\<exists>a \<in> set (airports_table (store example_session)).
      where_clause (like_pattern ''_'') a"
    by (simp add: example_tables)
  moreover have "CHR 0x00 \<notin> set ''_''" by simp
  ultimately have "\<exists>vs. fst (run_endpoint ''_'' example_session) = Response 200 (Airports vs) \<and>
      vs \<noteq> []"
    using outcomes_by_where_clause [of "''_''" example_session] by blast
  moreover have "\<not> spec_matches ''_'' kjfk" "\<not> spec_matches ''_'' lirf"
    by (simp_all add: spec_matches_def icontains_def lower_def lower_char_def kjfk_def lirf_def
        blank_airport_def)
  ultimately show ?thesis using example_tables(1) by simp
qed

text \<open>
  Claim C4. The claim is that every airport whose name or ident has the query as a
  substring is in the response exactly once. The airport of the store below has the
  query, which holds a backslash, as its name; the code reads the backslash as the escape
  of the LIKE pattern, finds no airport and answers 404: the airport is in no response.
\<close>

theorem backslash_query_misses_airport:
  "airports_table (store backslash_session) = [backslash_airport] \<and>
   spec_matches backslash_query backslash_airport \<and>
   fst (run_endpoint backslash_query backslash_session) =
     Response 404 (Detail ''No airport found with that name or ident'')"
proof -
  have tbl: "airports_table (store backslash_session) = [backslash_airport]"
    by (simp add: backslash_session_def)
  have "\<not> where_clause (like_pattern backslash_query) backslash_airport"
    by (simp add: where_clause_def ilike_def like_pattern_def lower_def lower_char_def
        backslash_airport_def backslash_query_def blank_airport_def)
  then have "\<forall>a \<in> set (airports_table (store backslash_session)).
      \<not> where_clause (like_pattern backslash_query) a"
    by (simp add: tbl)
  moreover have "CHR 0x00 \<notin> set backslash_query" by (simp add: backslash_query_def)
  ultimately have "fst (run_endpoint backslash_query backslash_session) =
      Response 404 (Detail ''No airport found with that name or ident'')"
    using outcomes_by_where_clause [of backslash_query backslash_session] by blast
  moreover have "spec_matches backslash_query backslash_airport"
    by (simp add: spec_matches_def icontains_def lower_def lower_char_def
        backslash_airport_def backslash_query_def blank_airport_def)
  ultimately show ?thesis using tbl by simp
qed

end
